theory Spec2Isabelle
  imports Complex_Main "HOL-Library.Multiset"
begin

section \<open>Data model (src/types.ts)\<close>

text \<open>
  Strings are byte strings: the UTF-8 encoding of the JavaScript text. JavaScript numbers
  that carry money are modelled as \<^typ>\<open>real\<close> (exact arithmetic: IEEE rounding and NaN are
  outside the model); counts, identifiers and quantities are integers.
\<close>

record OzonCredentials =
  clientId :: string
  apiKey :: string

text \<open>
  \<open>quantity\<close> is \<open>None\<close> when the field is missing from the payload. An empty
  \<open>currency_code\<close> stands for every falsy value of the field.
\<close>

record OzonProduct =
  name :: string
  offer_id :: string
  price :: string
  currency_code :: string
  quantity :: "int option"
  sku :: int

text \<open>
  An element of \<open>financial_data.products\<close>. Its numeric \<open>price\<close> field is called
  \<open>fin_price\<close> here, because \<open>price\<close> is the (string) field of \<^typ>\<open>OzonProduct\<close>.
\<close>

record FinancialProduct =
  payout :: real
  fin_price :: real

text \<open>
  The fields of a posting that the modelled functions read. \<open>posting_clientId\<close> is the
  optional \<open>clientId\<close> tag of the posting (renamed: \<open>clientId\<close> is the credential's field).
\<close>

record OzonPosting =
  posting_number :: string
  in_process_at :: string
  products :: "OzonProduct list"
  financial_data :: "FinancialProduct list option"
  posting_clientId :: "string option"

section \<open>JavaScript objects used as dictionaries\<close>

text \<open>
  \<open>Record<string, V>\<close> values are plain objects. Their own properties are kept as an
  association list in creation order; \<open>obj_set\<close> overwrites in place or appends.
\<close>

type_synonym 'v jsobject = "(string \<times> 'v) list"

definition obj_get :: "'v jsobject \<Rightarrow> string \<Rightarrow> 'v option" where
  "obj_get obj k = map_of obj k"

fun obj_set :: "'v jsobject \<Rightarrow> string \<Rightarrow> 'v \<Rightarrow> 'v jsobject" where
  "obj_set [] k v = [(k, v)]"
| "obj_set ((k', v') # rest) k v =
     (if k' = k then (k, v) # rest else (k', v') # obj_set rest k v)"

text \<open>
  A plain object inherits the properties of \<open>Object.prototype\<close>: reading one of these
  keys from an object that has no such own property yields a truthy inherited value.
\<close>

definition inherited_key :: "string \<Rightarrow> bool" where
  "inherited_key k \<longleftrightarrow> k \<in> set
     [''constructor'', ''hasOwnProperty'', ''isPrototypeOf'', ''propertyIsEnumerable'',
      ''toLocaleString'', ''toString'', ''valueOf'', ''__proto__'',
      ''__defineGetter__'', ''__defineSetter__'', ''__lookupGetter__'', ''__lookupSetter__'']"

text \<open>
  Own string keys are enumerated (\<open>Object.values\<close>, \<open>Object.entries\<close>) with the array
  indices first, in ascending numeric order, then every other key in creation order. An
  array index is the canonical decimal form of an integer from 0 to 2^32 - 2.
\<close>

definition is_digit :: "char \<Rightarrow> bool" where
  "is_digit c \<longleftrightarrow> (48::int) \<le> of_char c \<and> (of_char c :: int) \<le> 57"

definition digit_val :: "char \<Rightarrow> int" where
  "digit_val c = of_char c - 48"

definition decimal_val :: "string \<Rightarrow> int" where
  "decimal_val s = foldl (\<lambda>n c. 10 * n + digit_val c) 0 s"

definition is_array_index :: "string \<Rightarrow> bool" where
  "is_array_index s \<longleftrightarrow>
     s \<noteq> [] \<and> list_all is_digit s \<and> (hd s = CHR ''0'' \<longrightarrow> length s = 1) \<and>
     decimal_val s \<le> 4294967294"

definition own_entries :: "'v jsobject \<Rightarrow> (string \<times> 'v) list" where
  "own_entries obj =
     sort_key (\<lambda>(k, v). decimal_val k) (filter (\<lambda>(k, v). is_array_index k) obj) @
     filter (\<lambda>(k, v). \<not> is_array_index k) obj"

definition obj_values :: "'v jsobject \<Rightarrow> 'v list" where
  "obj_values obj = map snd (own_entries obj)"

section \<open>Revenue statistics (src/components/Dashboard.tsx, stats)\<close>

text \<open>
  \<open>parseFloat\<close> is the JavaScript built-in; it is a parameter of the model, giving the
  number a price string denotes.
\<close>

definition order_currency :: "OzonPosting \<Rightarrow> string" where
  "order_currency order =
     (case products order of
        [] \<Rightarrow> ''RUB''
      | p # _ \<Rightarrow> (if currency_code p \<noteq> [] then currency_code p else ''RUB''))"

definition financial_sum :: "FinancialProduct list \<Rightarrow> real" where
  "financial_sum ps = foldl (\<lambda>sum p. sum + fin_price p) 0 ps"

definition unit_price_sum :: "(string \<Rightarrow> real) \<Rightarrow> OzonProduct list \<Rightarrow> real" where
  "unit_price_sum parseFloat ps = foldl (\<lambda>sum p. sum + parseFloat (price p)) 0 ps"

text \<open>
  \<open>order.financial_data?.products.reduce(...) || order.products.reduce(...)\<close>: the right
  operand is taken when the left one is undefined or is the number 0.
\<close>

definition orderTotal :: "(string \<Rightarrow> real) \<Rightarrow> OzonPosting \<Rightarrow> real" where
  "orderTotal parseFloat order =
     (case financial_data order of
        None \<Rightarrow> unit_price_sum parseFloat (products order)
      | Some fps \<Rightarrow>
          (if financial_sum fps \<noteq> 0 then financial_sum fps
           else unit_price_sum parseFloat (products order)))"

record bucket =
  amount :: real
  count :: nat

text \<open>
  One iteration of \<open>orders.forEach\<close>, restricted to \<open>revenueByCurrency\<close>. When the
  currency is an inherited key, \<open>revenueByCurrency[currency]\<close> is the inherited value:
  no bucket is created and the two additions land on that value, so the own properties
  stay as they are.
\<close>

definition stats_step :: "(string \<Rightarrow> real) \<Rightarrow> bucket jsobject \<Rightarrow> OzonPosting \<Rightarrow> bucket jsobject" where
  "stats_step parseFloat revenue order =
     (let currency = order_currency order;
          total = orderTotal parseFloat order
      in if inherited_key currency then revenue
         else
           (let b = (case obj_get revenue currency of
                       None \<Rightarrow> \<lparr>amount = 0, count = 0\<rparr>
                     | Some b \<Rightarrow> b)
            in obj_set revenue currency \<lparr>amount = amount b + total, count = count b + 1\<rparr>))"

text \<open>The scan for the dominant currency over \<open>Object.entries(revenueByCurrency)\<close>.\<close>

definition dominant_step :: "string \<times> real \<Rightarrow> string \<times> bucket \<Rightarrow> string \<times> real" where
  "dominant_step st e =
     (case st of (dominantCurrency, maxRevenue) \<Rightarrow>
        (if amount (snd e) > maxRevenue then (fst e, amount (snd e))
         else (dominantCurrency, maxRevenue)))"

record stats_result =
  totalOrders :: nat
  revenueByCurrency :: "bucket jsobject"
  dominantCurrency :: string

text \<open>
  The memoised \<open>stats\<close> computation without its chart series (which reads the clock).
\<close>

definition stats :: "(string \<Rightarrow> real) \<Rightarrow> OzonPosting list \<Rightarrow> stats_result" where
  "stats parseFloat all_orders =
     (let revenue = foldl (stats_step parseFloat) [] all_orders
      in \<lparr>totalOrders = length all_orders,
          revenueByCurrency = revenue,
          dominantCurrency = fst (foldl dominant_step (''RUB'', -1) (own_entries revenue))\<rparr>)"

section \<open>Text constants and number formatting\<close>

text \<open>Decimal rendering of an integer, as template literals render integral numbers.\<close>

function show_nat :: "nat \<Rightarrow> string" where
  "show_nat n =
     (if n < 10 then [''0123456789'' ! n]
      else show_nat (n div 10) @ [''0123456789'' ! (n mod 10)])"
  by pat_completeness auto
termination
  by (relation "measure (\<lambda>n. n)") auto

declare show_nat.simps [simp del]

definition show_int :: "int \<Rightarrow> string" where
  "show_int i = (if i < 0 then CHR ''-'' # show_nat (nat (- i)) else show_nat (nat i))"

text \<open>
  The fixed parts of the alert shown for a failed store, in UTF-8:
  U+5E97 U+94FA, space, left bracket; then right bracket, space, U+6570 U+636E U+83B7
  U+53D6 U+5931 U+8D25, colon, space; then U+3002 U+8BF7 U+68C0 U+67E5 U+51ED U+8BC1
  U+662F U+5426 U+6B63 U+786E U+3002.
\<close>

definition alert_head :: string where
  "alert_head = [CHR 0xE5, CHR 0xBA, CHR 0x97, CHR 0xE9, CHR 0x93, CHR 0xBA, CHR 0x20, CHR 0x5B]"

definition alert_mid :: string where
  "alert_mid = [CHR 0x5D, CHR 0x20, CHR 0xE6, CHR 0x95, CHR 0xB0, CHR 0xE6, CHR 0x8D, CHR 0xAE,
      CHR 0xE8, CHR 0x8E, CHR 0xB7, CHR 0xE5, CHR 0x8F, CHR 0x96, CHR 0xE5,
      CHR 0xA4, CHR 0xB1, CHR 0xE8, CHR 0xB4, CHR 0xA5, CHR 0x3A, CHR 0x20]"

definition alert_tail :: string where
  "alert_tail = [CHR 0xE3, CHR 0x80, CHR 0x82, CHR 0xE8, CHR 0xAF, CHR 0xB7, CHR 0xE6, CHR 0xA3,
      CHR 0x80, CHR 0xE6, CHR 0x9F, CHR 0xA5, CHR 0xE5, CHR 0x87, CHR 0xAD,
      CHR 0xE8, CHR 0xAF, CHR 0x81, CHR 0xE6, CHR 0x98, CHR 0xAF, CHR 0xE5,
      CHR 0x90, CHR 0xA6, CHR 0xE6, CHR 0xAD, CHR 0xA3, CHR 0xE7, CHR 0xA1,
      CHR 0xAE, CHR 0xE3, CHR 0x80, CHR 0x82]"

text \<open>\<open>Client ID\<close> U+6216 \<open>API Key\<close> U+65E0 U+6548, space, left parenthesis.\<close>

definition auth_head :: string where
  "auth_head = ''Client ID '' @ [CHR 0xE6, CHR 0x88, CHR 0x96] @ '' API Key '' @
     [CHR 0xE6, CHR 0x97, CHR 0xA0, CHR 0xE6, CHR 0x95, CHR 0x88] @ '' (''"

text \<open>The message used for a thrown value that is not an \<open>Error\<close>: U+8FDE U+63A5 U+5931 U+8D25.\<close>

definition connection_failed :: string where
  "connection_failed = [CHR 0xE8, CHR 0xBF, CHR 0x9E, CHR 0xE6, CHR 0x8E, CHR 0xA5, CHR 0xE5, CHR 0xA4,
      CHR 0xB1, CHR 0xE8, CHR 0xB4, CHR 0xA5]"

section \<open>Array.prototype.sort\<close>

text \<open>
  \<open>xs.sort(cmp)\<close> as a stable insertion sort: \<open>a\<close> stays before \<open>b\<close> when
  \<open>cmp(a, b) \<le> 0\<close>. The standard fixes the result (a stable sort) for a consistent
  comparator; for an inconsistent one the order is implementation-defined and this
  function is one possible implementation.
\<close>

fun insert_by :: "('a \<Rightarrow> 'a \<Rightarrow> int) \<Rightarrow> 'a \<Rightarrow> 'a list \<Rightarrow> 'a list" where
  "insert_by cmp x [] = [x]"
| "insert_by cmp x (y # ys) =
     (if cmp x y \<le> 0 then x # y # ys else y # insert_by cmp x ys)"

definition js_sort :: "('a \<Rightarrow> 'a \<Rightarrow> int) \<Rightarrow> 'a list \<Rightarrow> 'a list" where
  "js_sort cmp xs = foldr (insert_by cmp) xs []"

section \<open>Order retrieval (src/services/ozonService.ts)\<close>

subsection \<open>The remote service\<close>

text \<open>A thrown value: an \<open>Error\<close> with its message, or anything else.\<close>

datatype thrown = JsError string | NonError

text \<open>
  The body of a response that is not ok. \<open>JsonBody message error_message json\<close>: the
  body parses, \<open>message\<close> and \<open>error.message\<close> are its two fields (empty when falsy or
  missing) and \<open>json\<close> is \<open>JSON.stringify\<close> of it. \<open>NotJson r\<close>: \<open>response.json()\<close>
  rejects, and \<open>r\<close> is what \<open>response.text()\<close> then does.
\<close>

datatype error_body = JsonBody string string string | NotJson "thrown + string"

record page =
  postings :: "OzonPosting list option"
  has_next :: bool

text \<open>
  What one \<open>fetch\<close> call does: it rejects; or it resolves with a status that is not ok;
  or it resolves ok, and reading \<open>data.result\<close> from the body throws or gives a page.
\<close>

datatype response =
    FetchRejected thrown
  | NotOk nat error_body
  | Ok "thrown + page"

record OzonPostingRequest =
  dir :: string
  filter_since :: string
  filter_to :: string
  limit :: nat
  offset :: nat
  with_analytics_data :: bool
  with_barcodes :: bool
  with_financial_data :: bool
  with_translit :: bool

text \<open>
  The environment of a run. \<open>window_of days\<close> gives the ISO strings of the two dates
  computed at the start of a per-store fetch; \<open>transport\<close> is the remote service, a
  function of the credentials in the headers and of the request body (within a run it
  answers a repeated request in the same way); \<open>getTime s\<close> is
  \<open>new Date(s).getTime()\<close> in milliseconds, \<open>None\<close> for NaN.
\<close>

record env =
  window_of :: "int \<Rightarrow> string \<times> string"
  transport :: "OzonCredentials \<Rightarrow> OzonPostingRequest \<Rightarrow> response"
  getTime :: "string \<Rightarrow> int option"

text \<open>
  What a call does besides returning: the alerts it shows and the requests it sends
  (the console output is left out). A per-store fetch has them as lists, in the order
  in which they happen. The stores of an aggregated fetch run concurrently, so the
  order of their alerts and requests among each other depends on timing: the
  aggregated fetch has them as multisets.
\<close>

record ('r, 'a, 'q) outcome =
  returned :: 'r
  alerted :: 'a
  requested :: 'q

type_synonym store_outcome =
  "(OzonPosting list, string list, (OzonCredentials \<times> OzonPostingRequest) list) outcome"

type_synonym aggregate_outcome =
  "(OzonPosting list, string multiset, (OzonCredentials \<times> OzonPostingRequest) multiset) outcome"

subsection \<open>fetchOrdersForStore\<close>

definition requestBody :: "string \<times> string \<Rightarrow> nat \<Rightarrow> OzonPostingRequest" where
  "requestBody win off =
     \<lparr>dir = ''DESC'', filter_since = fst win, filter_to = snd win,
      limit = 100, offset = off,
      with_analytics_data = True, with_barcodes = False,
      with_financial_data = True, with_translit = True\<rparr>"

definition errorDetail :: "error_body \<Rightarrow> thrown + string" where
  "errorDetail body =
     (case body of
        JsonBody message error_message json \<Rightarrow>
          Inr (if message \<noteq> [] then message
               else if error_message \<noteq> [] then error_message
               else json)
      | NotJson r \<Rightarrow> r)"

text \<open>One pass through the loop body up to \<open>const data = await response.json()\<close>.\<close>

definition page_outcome :: "response \<Rightarrow> thrown + page" where
  "page_outcome resp =
     (case resp of
        FetchRejected t \<Rightarrow> Inl t
      | NotOk status body \<Rightarrow>
          (case errorDetail body of
             Inl t \<Rightarrow> Inl t
           | Inr detail \<Rightarrow>
               (if status = 401 \<or> status = 403
                then Inl (JsError (auth_head @ detail @ '')''))
                else Inl (JsError (''API Error '' @ show_nat status @ '': '' @ detail))))
      | Ok r \<Rightarrow> r)"

text \<open>\<open>data.result.postings || []\<close>.\<close>

definition pagePostings :: "page \<Rightarrow> OzonPosting list" where
  "pagePostings data = (case postings data of None \<Rightarrow> [] | Some ps \<Rightarrow> ps)"

text \<open>
  The \<open>while (hasNext)\<close> loop, entered with \<open>hasNext\<close> true. The state is \<open>offset\<close>,
  \<open>allPostings\<close> and the requests sent so far. After a page has been added, the loop
  ends when the new offset exceeds 10000 (the \<open>break\<close>) or \<open>has_next\<close> is false.
\<close>

function fetch_loop ::
  "(OzonPostingRequest \<Rightarrow> response) \<Rightarrow> string \<times> string \<Rightarrow> nat \<Rightarrow> OzonPosting list \<Rightarrow>
   OzonPostingRequest list \<Rightarrow> OzonPostingRequest list \<times> (thrown + OzonPosting list)" where
  "fetch_loop send win off allPostings sent =
     (case page_outcome (send (requestBody win off)) of
        Inl t \<Rightarrow> (sent @ [requestBody win off], Inl t)
      | Inr data \<Rightarrow>
          (if off + 100 > 10000 \<or> \<not> has_next data
           then (sent @ [requestBody win off], Inr (allPostings @ pagePostings data))
           else fetch_loop send win (off + 100) (allPostings @ pagePostings data)
                  (sent @ [requestBody win off])))"
  by pat_completeness auto
termination
  by (relation "measure (\<lambda>(send, win, off, allPostings, sent). 10001 - off)") auto

declare fetch_loop.simps [simp del]

definition errorMessage :: "thrown \<Rightarrow> string" where
  "errorMessage t = (case t of JsError m \<Rightarrow> m | NonError \<Rightarrow> connection_failed)"

definition alert_text :: "OzonCredentials \<Rightarrow> string \<Rightarrow> string" where
  "alert_text credentials msg =
     alert_head @ clientId credentials @ alert_mid @ msg @ alert_tail"

definition fetchOrdersForStore :: "env \<Rightarrow> OzonCredentials \<Rightarrow> int \<Rightarrow> store_outcome" where
  "fetchOrdersForStore e credentials days =
     (case fetch_loop (transport e credentials) (window_of e days) 0 [] [] of
        (sent, Inr allPostings) \<Rightarrow>
          \<lparr>returned = map (\<lambda>p. p\<lparr>posting_clientId := Some (clientId credentials)\<rparr>) allPostings,
           alerted = [],
           requested = map (Pair credentials) sent\<rparr>
      | (sent, Inl t) \<Rightarrow>
          \<lparr>returned = [],
           alerted = [alert_text credentials (errorMessage t)],
           requested = map (Pair credentials) sent\<rparr>)"

subsection \<open>fetchAggregatedOrders and fetchOrders\<close>

text \<open>
  The comparator \<open>new Date(b.in_process_at).getTime() - new Date(a.in_process_at).getTime()\<close>;
  a NaN result counts as 0 in the sort.
\<close>

definition date_cmp :: "(string \<Rightarrow> int option) \<Rightarrow> OzonPosting \<Rightarrow> OzonPosting \<Rightarrow> int" where
  "date_cmp gt a b =
     (case (gt (in_process_at b), gt (in_process_at a)) of
        (Some tb, Some ta) \<Rightarrow> tb - ta
      | _ \<Rightarrow> 0)"

definition default_days :: "int option \<Rightarrow> int" where
  "default_days days = (case days of None \<Rightarrow> 15 | Some d \<Rightarrow> d)"

definition fetchAggregatedOrders ::
  "env \<Rightarrow> OzonCredentials list \<Rightarrow> int option \<Rightarrow> aggregate_outcome" where
  "fetchAggregatedOrders e credentialsList days =
     (if credentialsList = [] then \<lparr>returned = [], alerted = {#}, requested = {#}\<rparr>
      else
        (let results = map (\<lambda>cred. fetchOrdersForStore e cred (default_days days)) credentialsList
         in \<lparr>returned = js_sort (date_cmp (getTime e)) (concat (map returned results)),
             alerted = mset (concat (map alerted results)),
             requested = mset (concat (map requested results))\<rparr>))"

definition fetchOrders :: "env \<Rightarrow> OzonCredentials \<Rightarrow> int option \<Rightarrow> aggregate_outcome" where
  "fetchOrders e credentials days = fetchAggregatedOrders e [credentials] (Some (default_days days))"

subsection \<open>Vocabulary for the properties of the retrieval\<close>

text \<open>
  The outcome of the request for page \<open>i\<close> of a store (offset \<open>100 * i\<close>), the
  postings it carries, the failure that ends a per-store fetch, if any, and the
  comparison \<open>a.in_process_at \<ge> b.in_process_at\<close> of two dates (false when one is NaN).
\<close>

definition page_at :: "env \<Rightarrow> OzonCredentials \<Rightarrow> int \<Rightarrow> nat \<Rightarrow> thrown + page" where
  "page_at e credentials days i =
     page_outcome (transport e credentials (requestBody (window_of e days) (100 * i)))"

definition postings_of :: "thrown + page \<Rightarrow> OzonPosting list" where
  "postings_of r = (case r of Inl t \<Rightarrow> [] | Inr data \<Rightarrow> pagePostings data)"

definition store_failure :: "env \<Rightarrow> OzonCredentials \<Rightarrow> int \<Rightarrow> thrown option" where
  "store_failure e credentials days =
     (case snd (fetch_loop (transport e credentials) (window_of e days) 0 [] []) of
        Inl t \<Rightarrow> Some t
      | Inr allPostings \<Rightarrow> None)"

definition created_ge :: "(string \<Rightarrow> int option) \<Rightarrow> OzonPosting \<Rightarrow> OzonPosting \<Rightarrow> bool" where
  "created_ge gt a b =
     (case (gt (in_process_at a), gt (in_process_at b)) of
        (Some ta, Some tb) \<Rightarrow> ta \<ge> tb
      | _ \<Rightarrow> False)"

section \<open>Smart groups (src/components/Dashboard.tsx, smartGroups)\<close>

record group =
  product :: OzonProduct
  orders :: "OzonPosting list"
  currency :: string

datatype js_error = TypeError

text \<open>
  One iteration of \<open>orders.forEach\<close>. For an inherited key, \<open>groups[key]\<close> is truthy
  without being a group: no group is created, \<open>groups[key].orders\<close> is undefined and
  the call of \<open>push\<close> on it throws.
\<close>

definition group_step :: "group jsobject \<Rightarrow> OzonPosting \<Rightarrow> js_error + group jsobject" where
  "group_step groups order =
     (case products order of
        [p] \<Rightarrow>
          (let key = offer_id p
           in if inherited_key key then Inl TypeError
              else
                (let g = (case obj_get groups key of
                            None \<Rightarrow> \<lparr>product = p, orders = [],
                                      currency = (if currency_code p \<noteq> [] then currency_code p
                                                  else ''RUB'')\<rparr>
                          | Some g \<Rightarrow> g)
                 in Inr (obj_set groups key (g\<lparr>orders := orders g @ [order]\<rparr>))))
      | _ \<Rightarrow> Inr groups)"

fun group_loop :: "group jsobject \<Rightarrow> OzonPosting list \<Rightarrow> js_error + group jsobject" where
  "group_loop groups [] = Inr groups"
| "group_loop groups (order # rest) =
     (case group_step groups order of
        Inl err \<Rightarrow> Inl err
      | Inr groups' \<Rightarrow> group_loop groups' rest)"

definition size_cmp :: "group \<Rightarrow> group \<Rightarrow> int" where
  "size_cmp a b = int (length (orders b)) - int (length (orders a))"

definition smartGroups :: "OzonPosting list \<Rightarrow> js_error + group list" where
  "smartGroups all_orders =
     (case group_loop [] all_orders of
        Inl err \<Rightarrow> Inl err
      | Inr groups \<Rightarrow> Inr (js_sort size_cmp (obj_values groups)))"

section \<open>Export (src/components/Dashboard.tsx, handleExportSmartGroups)\<close>

text \<open>The byte-order mark U+FEFF and the header line, in UTF-8.\<close>

definition bom :: string where
  "bom = [CHR 0xEF, CHR 0xBB, CHR 0xBF]"

definition csv_header :: string where
  "csv_header = [CHR 0xE8, CHR 0xB4, CHR 0xA7, CHR 0xE5, CHR 0x8F, CHR 0xB7] @ '' (Offer ID),SKU,'' @
     [CHR 0xE5, CHR 0x95, CHR 0x86, CHR 0xE5, CHR 0x93, CHR 0x81, CHR 0xE5, CHR 0x90,
      CHR 0x8D, CHR 0xE7, CHR 0xA7, CHR 0xB0] @ '','' @
     [CHR 0xE5, CHR 0x8D, CHR 0x95, CHR 0xE4, CHR 0xBB, CHR 0xB7] @ '','' @
     [CHR 0xE5, CHR 0xB8, CHR 0x81, CHR 0xE7, CHR 0xA7, CHR 0x8D] @ '','' @
     [CHR 0xE6, CHR 0x80, CHR 0xBB, CHR 0xE6, CHR 0x95, CHR 0xB0, CHR 0xE9, CHR 0x87,
      CHR 0x8F] @ '' ('' @
     [CHR 0xE4, CHR 0xBB, CHR 0xB6] @ ''),'' @
     [CHR 0xE5, CHR 0xBE, CHR 0x85, CHR 0xE6, CHR 0x89, CHR 0x93, CHR 0xE5, CHR 0x8C,
      CHR 0x85, CHR 0xE8, CHR 0xAE, CHR 0xA2, CHR 0xE5, CHR 0x8D, CHR 0x95] @
     '','' @
     [CHR 0xE5, CHR 0xB7, CHR 0xB2, CHR 0xE6, CHR 0x89, CHR 0x93, CHR 0xE5, CHR 0x8C,
      CHR 0x85, CHR 0xE8, CHR 0xAE, CHR 0xA2, CHR 0xE5, CHR 0x8D, CHR 0x95] @
     [CHR 0x0A]"

text \<open>\<open>name.replace(/"/g, '""')\<close>; the quote character is byte 0x22.\<close>

definition escape_quotes :: "string \<Rightarrow> string" where
  "escape_quotes s = concat (map (\<lambda>c. if c = CHR 0x22 then [CHR 0x22, CHR 0x22] else [c]) s)"

text \<open>\<open>quantity || 1\<close>: 1 for a missing quantity and for the number 0.\<close>

definition quantity_or_1 :: "OzonProduct \<Rightarrow> int" where
  "quantity_or_1 p = (case quantity p of None \<Rightarrow> 1 | Some q \<Rightarrow> if q = 0 then 1 else q)"

text \<open>
  The \<open>reduce\<close> that computes \<open>totalQty\<close>; reading \<open>quantity\<close> of \<open>o.products[0]\<close>
  throws when the order has no line item.
\<close>

fun total_qty :: "int \<Rightarrow> OzonPosting list \<Rightarrow> js_error + int" where
  "total_qty qty [] = Inr qty"
| "total_qty qty (order # rest) =
     (case products order of
        [] \<Rightarrow> Inl TypeError
      | p # _ \<Rightarrow> total_qty (qty + quantity_or_1 p) rest)"

definition csv_row :: "string set \<Rightarrow> group \<Rightarrow> js_error + string" where
  "csv_row packedOrderIds g =
     (case total_qty 0 (orders g) of
        Inl err \<Rightarrow> Inl err
      | Inr totalQty \<Rightarrow>
          (let packedCount = length (filter (\<lambda>order. posting_number order \<in> packedOrderIds) (orders g));
               unpackedCount = length (orders g) - packedCount;
               safeName = escape_quotes (name (product g))
           in Inr (offer_id (product g) @ '','' @ show_int (sku (product g)) @ '','' @
                   [CHR 0x22] @ safeName @ [CHR 0x22] @ '','' @
                   price (product g) @ '','' @ currency g @ '','' @
                   show_int totalQty @ '','' @ show_nat unpackedCount @ '','' @
                   show_nat packedCount @ [CHR 0x0A])))"

fun export_loop :: "string set \<Rightarrow> string \<Rightarrow> group list \<Rightarrow> js_error + string" where
  "export_loop packedOrderIds csvContent [] = Inr csvContent"
| "export_loop packedOrderIds csvContent (g # rest) =
     (case csv_row packedOrderIds g of
        Inl err \<Rightarrow> Inl err
      | Inr row \<Rightarrow> export_loop packedOrderIds (csvContent @ row) rest)"

text \<open>
  The content of the exported blob; \<open>None\<close> when the handler returns without exporting.
\<close>

definition handleExportSmartGroups :: "group list \<Rightarrow> string set \<Rightarrow> js_error + string option" where
  "handleExportSmartGroups groups packedOrderIds =
     (if groups = [] then Inr None
      else
        (case export_loop packedOrderIds (bom @ csv_header) groups of
           Inl err \<Rightarrow> Inl err
         | Inr csvContent \<Rightarrow> Inr (Some csvContent)))"

section \<open>The grouping as the specification words it\<close>

text \<open>
  The orders with exactly one line item, the keys in the order in which they are first
  met, and for each key the group of its orders with the line item of the first one.
\<close>

definition single_item_orders :: "OzonPosting list \<Rightarrow> OzonPosting list" where
  "single_item_orders all_orders = filter (\<lambda>order. length (products order) = 1) all_orders"

definition product_key :: "OzonPosting \<Rightarrow> string" where
  "product_key order = offer_id (hd (products order))"

definition first_seen :: "'a list \<Rightarrow> 'a list" where
  "first_seen xs = rev (remdups (rev xs))"

definition spec_group :: "OzonPosting list \<Rightarrow> string \<Rightarrow> group" where
  "spec_group all_orders key =
     (let members = filter (\<lambda>order. product_key order = key) (single_item_orders all_orders);
          representative = hd (products (hd members))
      in \<lparr>product = representative, orders = members,
          currency = (if currency_code representative \<noteq> [] then currency_code representative
                      else ''RUB'')\<rparr>)"

definition spec_groups :: "OzonPosting list \<Rightarrow> (string \<times> group) list" where
  "spec_groups all_orders =
     map (\<lambda>key. (key, spec_group all_orders key))
       (first_seen (map product_key (single_item_orders all_orders)))"

text \<open>Stable sort, largest group first.\<close>

definition by_size_desc :: "group list \<Rightarrow> group list" where
  "by_size_desc gs = sort_key (\<lambda>g. - int (length (orders g))) gs"

section \<open>The export as the specification words it\<close>

text \<open>
  One row of a group: offer id, sku, the name in quotes with every quote character
  doubled, unit price, currency, total quantity, unpacked count, packed count. The
  quantity of a member order counts as 1 when it is missing or 0.
\<close>

definition spec_row :: "string set \<Rightarrow> group \<Rightarrow> string" where
  "spec_row packed g =
     offer_id (product g) @ '','' @ show_int (sku (product g)) @ '','' @
     [CHR 0x22] @ escape_quotes (name (product g)) @ [CHR 0x22] @ '','' @
     price (product g) @ '','' @ currency g @ '','' @
     show_int (\<Sum>x\<leftarrow>orders g. (case quantity (hd (products x)) of
                                       None \<Rightarrow> 1
                                     | Some q \<Rightarrow> if q = 0 then 1 else q)) @ '','' @
     show_nat (length (filter (\<lambda>x. posting_number x \<notin> packed) (orders g))) @ '','' @
     show_nat (length (filter (\<lambda>x. posting_number x \<in> packed) (orders g))) @ [CHR 0x0A]"

text \<open>The total quantity with the default applied to a missing quantity only.\<close>

definition stated_total_quantity :: "group \<Rightarrow> int" where
  "stated_total_quantity g =
     (\<Sum>x\<leftarrow>orders g. (case quantity (hd (products x)) of None \<Rightarrow> 1 | Some q \<Rightarrow> q))"

section \<open>Sample data\<close>

text \<open>Concrete inputs on which the theorems below are instantiated.\<close>

definition sample_parseFloat :: "string \<Rightarrow> real" where
  "sample_parseFloat s = (if s = ''5'' then 5 else if s = ''12.5'' then 25 / 2 else 0)"

definition sample_getTime :: "string \<Rightarrow> int option" where
  "sample_getTime s =
     (if s = ''2024-01-02T10:00:00Z'' then Some 1704189600000
      else if s = ''2024-01-03T10:00:00Z'' then Some 1704276000000
      else if s = ''2024-01-04T10:00:00Z'' then Some 1704362400000
      else None)"

definition line_item :: "string \<Rightarrow> string \<Rightarrow> int option \<Rightarrow> OzonProduct" where
  "line_item key title qty =
     \<lparr>name = title, offer_id = key, price = ''5'', currency_code = ''CNY'',
      quantity = qty, sku = 7\<rparr>"

definition posting ::
  "string \<Rightarrow> string \<Rightarrow> OzonProduct list \<Rightarrow> FinancialProduct list option \<Rightarrow> OzonPosting" where
  "posting number date items fin =
     \<lparr>posting_number = number, in_process_at = date, products = items,
      financial_data = fin, posting_clientId = None\<rparr>"

text \<open>Two units of one item, with financial data whose prices sum to 0.\<close>

definition order_zero_financials :: OzonPosting where
  "order_zero_financials =
     posting ''P-1'' ''2024-01-03T10:00:00Z'' [line_item ''mug'' ''Mug'' (Some 2)]
       (Some [\<lparr>payout = 0, fin_price = 0\<rparr>])"

text \<open>The same order with an empty financial product list.\<close>

definition order_empty_financials :: OzonPosting where
  "order_empty_financials =
     posting ''P-1'' ''2024-01-03T10:00:00Z'' [line_item ''mug'' ''Mug'' (Some 2)] (Some [])"

text \<open>An order with financial data and with line items priced differently.\<close>

definition order_with_financials :: OzonPosting where
  "order_with_financials =
     posting ''P-6'' ''2024-01-03T10:00:00Z''
       [line_item ''mug'' ''Mug'' (Some 2), line_item ''cup'' ''Cup'' (Some 1)]
       (Some [\<lparr>payout = 3, fin_price = 4\<rparr>, \<lparr>payout = 2, fin_price = 3\<rparr>])"

text \<open>An order without line items, with financial data.\<close>

definition order_without_items :: OzonPosting where
  "order_without_items =
     posting ''P-2'' ''2024-01-02T10:00:00Z'' [] (Some [\<lparr>payout = 6, fin_price = 7\<rparr>])"

text \<open>Two single-item orders whose offer ids are array indices, the larger one first.\<close>

definition numeric_orders :: "OzonPosting list" where
  "numeric_orders =
     [posting ''P-3'' ''2024-01-04T10:00:00Z'' [line_item ''2'' ''Cup'' None] None,
      posting ''P-4'' ''2024-01-03T10:00:00Z'' [line_item ''1'' ''Pen'' None] None]"

text \<open>
  Four orders: a pen, a plate whose name contains a quote character, a two-item
  order, and a second plate order.
\<close>

definition plate :: "int option \<Rightarrow> OzonProduct" where
  "plate qty = line_item ''plate-6'' (''6'' @ [CHR 0x22] @ '' plate'') qty"

definition mixed_orders :: "OzonPosting list" where
  "mixed_orders =
     [posting ''P-7'' ''2024-01-04T10:00:00Z'' [line_item ''pen'' ''Pen'' (Some 1)] None,
      posting ''P-8'' ''2024-01-03T10:00:00Z'' [plate (Some 3)] None,
      posting ''P-9'' ''2024-01-03T10:00:00Z'' [plate (Some 1), line_item ''pen'' ''Pen'' (Some 1)] None,
      posting ''P-10'' ''2024-01-02T10:00:00Z'' [plate None] None]"

text \<open>The groups of these orders: two plates, then one pen.\<close>

definition mixed_groups :: "group list" where
  "mixed_groups =
     [\<lparr>product = plate (Some 3),
       orders = [posting ''P-8'' ''2024-01-03T10:00:00Z'' [plate (Some 3)] None,
                 posting ''P-10'' ''2024-01-02T10:00:00Z'' [plate None] None],
       currency = ''CNY''\<rparr>,
      \<lparr>product = line_item ''pen'' ''Pen'' (Some 1),
       orders = [posting ''P-7'' ''2024-01-04T10:00:00Z'' [line_item ''pen'' ''Pen'' (Some 1)] None],
       currency = ''CNY''\<rparr>]"

text \<open>A group whose only member has quantity 0.\<close>

definition zero_quantity_group :: group where
  "zero_quantity_group =
     \<lparr>product = line_item ''cup'' ''Cup'' (Some 0),
      orders = [posting ''P-5'' ''2024-01-02T10:00:00Z'' [line_item ''cup'' ''Cup'' (Some 0)] None],
      currency = ''CNY''\<rparr>"

definition store_A :: OzonCredentials where
  "store_A = \<lparr>clientId = ''A'', apiKey = ''key-a''\<rparr>"

definition store_B :: OzonCredentials where
  "store_B = \<lparr>clientId = ''B'', apiKey = ''key-b''\<rparr>"

definition sample_window :: "int \<Rightarrow> string \<times> string" where
  "sample_window days = (''2024-01-01T00:00:00.000Z'', ''2024-01-16T00:00:00.000Z'')"

definition store_B_page :: page where
  "store_B_page =
     \<lparr>postings = Some [posting ''B-1'' ''2024-01-02T10:00:00Z'' [line_item ''pen'' ''Pen'' (Some 1)] None,
                       posting ''B-2'' ''2024-01-04T10:00:00Z'' [line_item ''cup'' ''Cup'' (Some 1)] None],
      has_next = False\<rparr>"

text \<open>
  Store A answers its first page with one order and more to come, and every later
  page with status 401; store B has a single page.
\<close>

definition env_A_fails :: env where
  "env_A_fails =
     \<lparr>window_of = sample_window,
      transport = (\<lambda>credentials request.
         if clientId credentials = ''A''
         then (if offset request = 0
               then Ok (Inr \<lparr>postings = Some [posting ''A-1'' ''2024-01-03T10:00:00Z''
                                                 [line_item ''mug'' ''Mug'' (Some 1)] None],
                             has_next = True\<rparr>)
               else NotOk 401 (JsonBody ''bad key'' [] ''{}''))
         else Ok (Inr store_B_page)),
      getTime = sample_getTime\<rparr>"

text \<open>Store A has no orders; store B is as before.\<close>

definition env_A_empty :: env where
  "env_A_empty =
     \<lparr>window_of = sample_window,
      transport = (\<lambda>credentials request.
         if clientId credentials = ''A''
         then Ok (Inr \<lparr>postings = Some [], has_next = False\<rparr>)
         else Ok (Inr store_B_page)),
      getTime = sample_getTime\<rparr>"

text \<open>Store A has one page with one order; store B is as before.\<close>

definition env_both_ok :: env where
  "env_both_ok =
     \<lparr>window_of = sample_window,
      transport = (\<lambda>credentials request.
         if clientId credentials = ''A''
         then Ok (Inr \<lparr>postings = Some [posting ''A-1'' ''2024-01-03T10:00:00Z''
                                           [line_item ''mug'' ''Mug'' (Some 1)] None],
                       has_next = False\<rparr>)
         else Ok (Inr store_B_page)),
      getTime = sample_getTime\<rparr>"

text \<open>
  Every store has one page with two orders: one with a valid date and one whose date
  does not parse.
\<close>

definition dated_order :: OzonPosting where
  "dated_order = posting ''D-1'' ''2024-01-02T10:00:00Z'' [line_item ''pen'' ''Pen'' (Some 1)] None"

definition undated_order :: OzonPosting where
  "undated_order = posting ''D-2'' ''soon'' [line_item ''cup'' ''Cup'' (Some 1)] None"

definition env_bad_date :: env where
  "env_bad_date =
     \<lparr>window_of = sample_window,
      transport = (\<lambda>credentials request.
         Ok (Inr \<lparr>postings = Some [dated_order, undated_order], has_next = False\<rparr>)),
      getTime = sample_getTime\<rparr>"

text \<open>A store that always has a next page.\<close>

definition env_endless :: env where
  "env_endless =
     \<lparr>window_of = sample_window,
      transport = (\<lambda>credentials request. Ok (Inr \<lparr>postings = None, has_next = True\<rparr>)),
      getTime = sample_getTime\<rparr>"

section \<open>Auxiliary facts\<close>

lemmas sample_defs = sample_parseFloat_def sample_getTime_def line_item_def posting_def
  order_zero_financials_def order_empty_financials_def order_with_financials_def
  order_without_items_def numeric_orders_def plate_def mixed_orders_def zero_quantity_group_def
  store_A_def store_B_def sample_window_def store_B_page_def env_A_fails_def env_A_empty_def
  env_both_ok_def env_endless_def dated_order_def undated_order_def env_bad_date_def

lemmas retrieval_defs = fetchAggregatedOrders_def fetchOrdersForStore_def fetch_loop.simps
  page_outcome_def requestBody_def errorDetail_def default_days_def pagePostings_def
  js_sort_def date_cmp_def alert_text_def errorMessage_def

subsection \<open>Sums and dictionaries\<close>

lemma foldl_add_sum_list:
  fixes a :: real
  shows "foldl (\<lambda>s p. s + f p) a xs = a + sum_list (map f xs)"
  by (induction xs arbitrary: a) simp_all

lemma financial_sum_sum_list: "financial_sum fps = (\<Sum>p\<leftarrow>fps. fin_price p)"
  by (simp add: financial_sum_def foldl_add_sum_list)

lemma unit_price_sum_sum_list: "unit_price_sum pf ps = (\<Sum>p\<leftarrow>ps. pf (price p))"
  by (simp add: unit_price_sum_def foldl_add_sum_list)

lemma obj_get_obj_set: "obj_get (obj_set obj k v) k' = (if k' = k then Some v else obj_get obj k')"
  by (induction obj) (auto simp: obj_get_def)

lemma revenue_bucket:
  assumes "\<not> inherited_key c"
  shows "obj_get (foldl (stats_step pf) [] os) c =
    (if filter (\<lambda>x. order_currency x = c) os = [] then None
     else Some \<lparr>amount = (\<Sum>x\<leftarrow>filter (\<lambda>x. order_currency x = c) os. orderTotal pf x),
                count = length (filter (\<lambda>x. order_currency x = c) os)\<rparr>)"
proof (induction os rule: rev_induct)
  case Nil
  show ?case by (simp add: obj_get_def)
next
  case (snoc x xs)
  show ?case
  proof (cases "order_currency x = c")
    case True
    with assms snoc show ?thesis
      by (simp add: stats_step_def Let_def obj_get_obj_set)
  next
    case False
    with snoc show ?thesis
      by (simp add: stats_step_def Let_def obj_get_obj_set)
  qed
qed

lemma inherited_RUB: "\<not> inherited_key ''RUB''"
  by (simp add: inherited_key_def)

subsection \<open>Sorting\<close>

lemma insert_by_insort_key:
  assumes "\<And>y. y \<in> set ys \<Longrightarrow> (cmp x y \<le> 0) = (f x \<le> f y)"
  shows "insert_by cmp x ys = insort_key f x ys"
  using assms by (induction ys) auto

lemma js_sort_sort_key:
  fixes f :: "'a \<Rightarrow> int"
  assumes "\<And>x y. x \<in> set xs \<Longrightarrow> y \<in> set xs \<Longrightarrow> (cmp x y \<le> 0) = (f x \<le> f y)"
  shows "js_sort cmp xs = sort_key f xs"
  using assms
proof (induction xs)
  case Nil
  show ?case by (simp add: js_sort_def)
next
  case (Cons x xs)
  have ih: "js_sort cmp xs = sort_key f xs"
    using Cons by simp
  have "insert_by cmp x (sort_key f xs) = insort_key f x (sort_key f xs)"
    by (rule insert_by_insort_key) (simp add: Cons.prems)
  with ih show ?case
    by (simp add: js_sort_def)
qed

lemma mset_insert_by: "mset (insert_by cmp x ys) = add_mset x (mset ys)"
  by (induction ys) auto

lemma mset_js_sort: "mset (js_sort cmp xs) = mset xs"
  by (induction xs) (simp_all add: js_sort_def mset_insert_by)

lemma set_js_sort: "set (js_sort cmp xs) = set xs"
  using mset_js_sort[of cmp xs] by (metis set_mset_mset)

subsection \<open>The pagination loop\<close>

lemma map_upt_shift: "map f [0..<Suc n] = f 0 # map (\<lambda>i. f (Suc i)) [0..<n]"
  by (simp add: upt_conv_Cons map_Suc_upt[symmetric] del: upt_Suc)

text \<open>
  A run of the loop from offset \<open>off\<close> requests the pages at \<open>off\<close>, \<open>off + 100\<close>, ...
  up to some last one; every page before the last succeeded and announced a next page;
  the last page either failed, and its failure is the result, or it succeeded, and then
  it announced no next page or the next offset exceeds 10000.
\<close>

lemma fetch_loop_char:
  assumes "off \<le> 10000"
  shows "\<exists>m. off + 100 * m \<le> 10000 \<and>
     fst (fetch_loop send win off acc sent) = sent @ map (\<lambda>i. requestBody win (off + 100 * i)) [0..<Suc m] \<and>
     (\<forall>i<m. \<exists>data. page_outcome (send (requestBody win (off + 100 * i))) = Inr data \<and> has_next data) \<and>
     (case page_outcome (send (requestBody win (off + 100 * m))) of
        Inl t \<Rightarrow> snd (fetch_loop send win off acc sent) = Inl t
      | Inr data \<Rightarrow> (\<not> has_next data \<or> off + 100 * m + 100 > 10000) \<and>
          snd (fetch_loop send win off acc sent) =
            Inr (acc @ concat (map (\<lambda>i. postings_of (page_outcome (send (requestBody win (off + 100 * i))))) [0..<Suc m])))"
  using assms
proof (induction send win off acc sent rule: fetch_loop.induct)
  case (1 send win off allPostings sent)
  let ?Q = "\<lambda>i. page_outcome (send (requestBody win (off + 100 * i)))"
  show ?case
  proof (cases "page_outcome (send (requestBody win off))")
    case (Inl t)
    then show ?thesis
      using "1.prems" by (intro exI[of _ 0]) (simp add: fetch_loop.simps[of send win off])
  next
    case (Inr data)
    show ?thesis
    proof (cases "off + 100 > 10000 \<or> \<not> has_next data")
      case True
      then show ?thesis
        using Inr "1.prems"
        by (intro exI[of _ 0]) (auto simp: fetch_loop.simps[of send win off] postings_of_def)
    next
      case False
      then have le: "off + 100 \<le> 10000" and hn: "has_next data" by auto
      from "1.IH"[OF Inr False le]
      obtain m where m: "off + 100 + 100 * m \<le> 10000"
        and req: "fst (fetch_loop send win (off + 100) (allPostings @ pagePostings data) (sent @ [requestBody win off])) =
                  (sent @ [requestBody win off]) @ map (\<lambda>i. requestBody win (off + 100 + 100 * i)) [0..<Suc m]"
        and pre: "\<forall>i<m. \<exists>d. page_outcome (send (requestBody win (off + 100 + 100 * i))) = Inr d \<and> has_next d"
        and fin: "(case page_outcome (send (requestBody win (off + 100 + 100 * m))) of
            Inl t \<Rightarrow> snd (fetch_loop send win (off + 100) (allPostings @ pagePostings data) (sent @ [requestBody win off])) = Inl t
          | Inr d \<Rightarrow> (\<not> has_next d \<or> off + 100 + 100 * m + 100 > 10000) \<and>
              snd (fetch_loop send win (off + 100) (allPostings @ pagePostings data) (sent @ [requestBody win off])) =
              Inr ((allPostings @ pagePostings data) @
                   concat (map (\<lambda>i. postings_of (page_outcome (send (requestBody win (off + 100 + 100 * i))))) [0..<Suc m])))"
        by blast
      have step: "fetch_loop send win off allPostings sent =
                  fetch_loop send win (off + 100) (allPostings @ pagePostings data) (sent @ [requestBody win off])"
        using Inr False by (simp add: fetch_loop.simps[of send win off])
      have sh: "\<And>i. off + 100 + 100 * i = off + 100 * Suc i" by simp
      have c1: "off + 100 * Suc m \<le> 10000" using m by simp
      have c2: "fst (fetch_loop send win off allPostings sent) =
                sent @ map (\<lambda>i. requestBody win (off + 100 * i)) [0..<Suc (Suc m)]"
        unfolding step req map_upt_shift[of _ "Suc m"] sh by simp
      have c3: "\<forall>i<Suc m. \<exists>d. ?Q i = Inr d \<and> has_next d"
      proof (intro allI impI)
        fix i assume "i < Suc m"
        show "\<exists>d. ?Q i = Inr d \<and> has_next d"
        proof (cases i)
          case 0
          then show ?thesis using Inr hn by simp
        next
          case (Suc j)
          with \<open>i < Suc m\<close> have "j < m" by simp
          with pre show ?thesis unfolding sh Suc by blast
        qed
      qed
      have q0: "postings_of (?Q 0) = pagePostings data"
        using Inr by (simp add: postings_of_def)
      have c4: "(case ?Q (Suc m) of
            Inl t \<Rightarrow> snd (fetch_loop send win off allPostings sent) = Inl t
          | Inr d \<Rightarrow> (\<not> has_next d \<or> off + 100 * Suc m + 100 > 10000) \<and>
              snd (fetch_loop send win off allPostings sent) =
              Inr (allPostings @ concat (map (\<lambda>i. postings_of (?Q i)) [0..<Suc (Suc m)])))"
        using fin unfolding step sh map_upt_shift[of _ "Suc m"] concat.simps list.map q0
        by (simp split: sum.splits)
      show ?thesis
        using c1 c2 c3 c4 by (intro exI[of _ "Suc m"]) blast
    qed
  qed
qed

lemma fetchOrdersForStore_char:
  "\<exists>n\<le>100.
     map snd (requested (fetchOrdersForStore e c days)) =
       map (\<lambda>i. requestBody (window_of e days) (100 * i)) [0..<Suc n] \<and>
     map fst (requested (fetchOrdersForStore e c days)) = replicate (Suc n) c \<and>
     (\<forall>i<n. \<exists>data. page_at e c days i = Inr data \<and> has_next data) \<and>
     (case page_at e c days n of
        Inl t \<Rightarrow> store_failure e c days = Some t \<and>
                 returned (fetchOrdersForStore e c days) = [] \<and>
                 alerted (fetchOrdersForStore e c days) = [alert_text c (errorMessage t)]
      | Inr data \<Rightarrow> (\<not> has_next data \<or> n = 100) \<and>
          store_failure e c days = None \<and>
          alerted (fetchOrdersForStore e c days) = [] \<and>
          returned (fetchOrdersForStore e c days) =
            map (\<lambda>p. p\<lparr>posting_clientId := Some (clientId c)\<rparr>)
              (concat (map (\<lambda>i. postings_of (page_at e c days i)) [0..<Suc n])))"
proof -
  let ?r = "fetch_loop (transport e c) (window_of e days) 0 [] []"
  have "\<exists>m. 100 * m \<le> 10000 \<and>
      fst ?r = map (\<lambda>i. requestBody (window_of e days) (100 * i)) [0..<Suc m] \<and>
      (\<forall>i<m. \<exists>data. page_at e c days i = Inr data \<and> has_next data) \<and>
      (case page_at e c days m of
        Inl t \<Rightarrow> snd ?r = Inl t
      | Inr data \<Rightarrow> (\<not> has_next data \<or> 100 * m + 100 > 10000) \<and>
          snd ?r = Inr (concat (map (\<lambda>i. postings_of (page_at e c days i)) [0..<Suc m])))"
    using fetch_loop_char[of 0 "transport e c" "window_of e days" "[]" "[]"]
    by (simp add: page_at_def del: upt_Suc cong: sum.case_cong)
  then obtain m where m: "100 * m \<le> 10000"
    and req: "fst ?r = map (\<lambda>i. requestBody (window_of e days) (100 * i)) [0..<Suc m]"
    and pre: "\<forall>i<m. \<exists>data. page_at e c days i = Inr data \<and> has_next data"
    and fin: "(case page_at e c days m of
        Inl t \<Rightarrow> snd ?r = Inl t
      | Inr data \<Rightarrow> (\<not> has_next data \<or> 100 * m + 100 > 10000) \<and>
          snd ?r = Inr (concat (map (\<lambda>i. postings_of (page_at e c days i)) [0..<Suc m])))"
    by blast
  have m100: "m \<le> 100" using m by simp
  have cap: "100 * m + 100 > 10000 \<Longrightarrow> m = 100" using m by simp
  obtain sent res where r: "?r = (sent, res)" by (cases ?r)
  have sent: "sent = map (\<lambda>i. requestBody (window_of e days) (100 * i)) [0..<Suc m]"
    using req r by simp
  have c1: "map snd (requested (fetchOrdersForStore e c days)) =
       map (\<lambda>i. requestBody (window_of e days) (100 * i)) [0..<Suc m]"
    using r sent by (cases res) (simp_all add: fetchOrdersForStore_def comp_def del: upt_Suc)
  have c2: "map fst (requested (fetchOrdersForStore e c days)) = replicate (Suc m) c"
    using r sent by (cases res) (simp_all add: fetchOrdersForStore_def comp_def map_replicate_const del: upt_Suc replicate_Suc)
  have c3: "(case page_at e c days m of
        Inl t \<Rightarrow> store_failure e c days = Some t \<and>
                 returned (fetchOrdersForStore e c days) = [] \<and>
                 alerted (fetchOrdersForStore e c days) = [alert_text c (errorMessage t)]
      | Inr data \<Rightarrow> (\<not> has_next data \<or> m = 100) \<and>
          store_failure e c days = None \<and>
          alerted (fetchOrdersForStore e c days) = [] \<and>
          returned (fetchOrdersForStore e c days) =
            map (\<lambda>p. p\<lparr>posting_clientId := Some (clientId c)\<rparr>)
              (concat (map (\<lambda>i. postings_of (page_at e c days i)) [0..<Suc m])))"
  proof (cases "page_at e c days m")
    case (Inl t)
    with fin r have "res = Inl t" by simp
    with r Inl show ?thesis
      by (simp add: fetchOrdersForStore_def store_failure_def)
  next
    case (Inr data)
    with fin r have res: "res = Inr (concat (map (\<lambda>i. postings_of (page_at e c days i)) [0..<Suc m]))"
      and stop: "\<not> has_next data \<or> 100 * m + 100 > 10000" by simp_all
    from stop cap have "\<not> has_next data \<or> m = 100" by blast
    with r res Inr show ?thesis
      by (simp add: fetchOrdersForStore_def store_failure_def del: upt_Suc)
  qed
  show ?thesis
    using m100 c1 c2 pre c3 by (intro exI[of _ m]) blast
qed

subsection \<open>The aggregated fetch\<close>

lemma default_days_idem: "default_days (Some (default_days days)) = default_days days"
  by (simp add: default_days_def)

lemma concat_map_filter_nonempty:
  assumes "\<And>x. x \<in> set xs \<Longrightarrow> \<not> P x \<Longrightarrow> f x = []"
  shows "concat (map f (filter P xs)) = concat (map f xs)"
  using assms by (induction xs) auto

lemma store_outcome_by_failure:
  "alerted (fetchOrdersForStore e c d) =
     (case store_failure e c d of None \<Rightarrow> [] | Some t \<Rightarrow> [alert_text c (errorMessage t)])"
  "store_failure e c d \<noteq> None \<Longrightarrow> returned (fetchOrdersForStore e c d) = []"
  by (cases "fetch_loop (transport e c) (window_of e d) 0 [] []";
      cases "snd (fetch_loop (transport e c) (window_of e d) 0 [] [])";
      simp add: fetchOrdersForStore_def store_failure_def)+

lemma stamped: "p \<in> set (returned (fetchOrdersForStore e c d)) \<Longrightarrow> posting_clientId p = Some (clientId c)"
  by (cases "fetch_loop (transport e c) (window_of e d) 0 [] []";
      cases "snd (fetch_loop (transport e c) (window_of e d) 0 [] [])")
     (auto simp: fetchOrdersForStore_def)

lemma aggregate_returned:
  "returned (fetchAggregatedOrders e creds days) =
     js_sort (date_cmp (getTime e))
       (concat (map (\<lambda>c. returned (fetchOrdersForStore e c (default_days days))) creds))"
  by (simp add: fetchAggregatedOrders_def Let_def comp_def js_sort_def)

lemma aggregate_alerted:
  "alerted (fetchAggregatedOrders e creds days) =
     mset (concat (map (\<lambda>c. alerted (fetchOrdersForStore e c (default_days days))) creds))"
  by (simp add: fetchAggregatedOrders_def Let_def comp_def)

lemma mset_concat_map: "mset (concat (map f xs)) = (\<Sum>x\<leftarrow>xs. mset (f x))"
  by (induction xs) simp_all

lemma store_failure_A: "store_failure env_A_fails store_A 15 = Some (JsError (auth_head @ ''bad key)''))"
  by (simp add: store_failure_def retrieval_defs sample_defs)

lemma store_failure_B: "store_failure env_A_fails store_B 15 = None"
  by (simp add: store_failure_def retrieval_defs sample_defs)

section \<open>Revenue of an order\<close>

text \<open>
  C1, amended. The revenue of an order is the sum of the \<open>price\<close> fields of its
  financial products when financial data is present and that sum is not 0; otherwise it
  is the sum of the unit prices of its line items, each counted once whatever its
  quantity.
\<close>

theorem orderTotal_sums:
  "orderTotal pf order =
     (case financial_data order of
        None \<Rightarrow> (\<Sum>p\<leftarrow>products order. pf (price p))
      | Some fps \<Rightarrow>
          (if (\<Sum>p\<leftarrow>fps. fin_price p) \<noteq> 0 then (\<Sum>p\<leftarrow>fps. fin_price p)
           else (\<Sum>p\<leftarrow>products order. pf (price p))))"
  by (simp add: orderTotal_def financial_sum_sum_list unit_price_sum_sum_list split: option.splits)

text \<open>
  An order with financial prices 4 and 3 has revenue 7; without financial data its two
  line items, of quantities 2 and 1 and unit price 5, give 10.
\<close>

theorem orderTotal_sums_witness:
  "orderTotal sample_parseFloat order_with_financials = 7 \<and>
   orderTotal sample_parseFloat (order_with_financials\<lparr>financial_data := None\<rparr>) = 10 \<and>
   map quantity (products order_with_financials) = [Some 2, Some 1]"
  using orderTotal_sums[of sample_parseFloat order_with_financials]
    orderTotal_sums[of sample_parseFloat "order_with_financials\<lparr>financial_data := None\<rparr>"]
  by (simp add: sample_defs)

text \<open>
  C1 as stated fails: financial data is present with sum 0, and the revenue is the unit
  price 5 of the line item.
\<close>

theorem revenue_counterexample:
  "financial_data order_zero_financials = Some [\<lparr>payout = 0, fin_price = 0\<rparr>] \<and>
   financial_sum [\<lparr>payout = 0, fin_price = 0\<rparr>] = 0 \<and>
   orderTotal sample_parseFloat order_zero_financials = 5"
  by (simp add: orderTotal_def financial_sum_def unit_price_sum_def sample_defs)

text \<open>
  C9. When the financial prices of an order sum to 0, in particular when the financial
  product list is empty, the revenue of the order is the sum of the unit prices of its
  line items.
\<close>

theorem zero_financials_fall_back:
  assumes "financial_data order = Some fps" and "(\<Sum>p\<leftarrow>fps. fin_price p) = 0"
  shows "orderTotal pf order = (\<Sum>p\<leftarrow>products order. pf (price p))"
  using assms by (simp add: orderTotal_def financial_sum_sum_list unit_price_sum_sum_list)

theorem zero_financials_fall_back_witness:
  "financial_data order_empty_financials = Some [] \<and>
   orderTotal sample_parseFloat order_empty_financials = 5"
  using zero_financials_fall_back[of order_empty_financials "[]" sample_parseFloat]
  by (simp add: sample_defs)

section \<open>Orders without line items\<close>

text \<open>
  C3, amended. An order with no line item counts toward \<open>totalOrders\<close> and takes the
  default currency RUB: the RUB bucket exists, its count is the number of orders of
  currency RUB, this one included, and its amount is the sum of their revenues, where
  the revenue of this order is the sum of its financial prices (0 without financial
  data).
\<close>

theorem empty_order_in_RUB_bucket:
  assumes "order \<in> set all_orders" and "products order = []"
  shows "totalOrders (stats pf all_orders) = length all_orders \<and>
         order_currency order = ''RUB'' \<and>
         orderTotal pf order = (case financial_data order of None \<Rightarrow> 0 | Some fps \<Rightarrow> (\<Sum>p\<leftarrow>fps. fin_price p)) \<and>
         obj_get (revenueByCurrency (stats pf all_orders)) ''RUB'' =
           Some \<lparr>amount = (\<Sum>x\<leftarrow>filter (\<lambda>x. order_currency x = ''RUB'') all_orders. orderTotal pf x),
                 count = length (filter (\<lambda>x. order_currency x = ''RUB'') all_orders)\<rparr>"
proof -
  have cur: "order_currency order = ''RUB''"
    using assms(2) by (simp add: order_currency_def)
  have ne: "filter (\<lambda>x. order_currency x = ''RUB'') all_orders \<noteq> []"
    using assms(1) cur by (auto simp: filter_empty_conv)
  have tot: "orderTotal pf order = (case financial_data order of None \<Rightarrow> 0 | Some fps \<Rightarrow> (\<Sum>p\<leftarrow>fps. fin_price p))"
    using assms(2) by (simp add: orderTotal_def financial_sum_sum_list unit_price_sum_def split: option.splits)
  have "obj_get (revenueByCurrency (stats pf all_orders)) ''RUB'' =
           Some \<lparr>amount = (\<Sum>x\<leftarrow>filter (\<lambda>x. order_currency x = ''RUB'') all_orders. orderTotal pf x),
                 count = length (filter (\<lambda>x. order_currency x = ''RUB'') all_orders)\<rparr>"
    using revenue_bucket[OF inherited_RUB, of pf all_orders] ne
    by (simp add: stats_def Let_def)
  then show ?thesis using cur tot by (simp add: stats_def Let_def)
qed

theorem empty_order_in_RUB_bucket_witness:
  "order_without_items \<in> set [order_zero_financials, order_without_items] \<and>
   products order_without_items = [] \<and>
   totalOrders (stats sample_parseFloat [order_zero_financials, order_without_items]) = 2 \<and>
   obj_get (revenueByCurrency (stats sample_parseFloat [order_zero_financials, order_without_items]))
     ''RUB'' = Some \<lparr>amount = 7, count = 1\<rparr>"
  using empty_order_in_RUB_bucket[of order_without_items
          "[order_zero_financials, order_without_items]" sample_parseFloat]
  by (simp add: order_currency_def orderTotal_def financial_sum_def sample_defs)

text \<open>
  C3 as stated fails: an order with no line item, alone, creates the RUB bucket with
  count 1 and amount 7.
\<close>

theorem empty_order_counterexample:
  "products order_without_items = [] \<and>
   revenueByCurrency (stats sample_parseFloat [order_without_items]) =
     [(''RUB'', \<lparr>amount = 7, count = 1\<rparr>)]"
  by (simp add: stats_def Let_def stats_step_def order_currency_def orderTotal_def financial_sum_def
        inherited_key_def obj_get_def sample_defs)

section \<open>Pagination\<close>

text \<open>
  C6. A per-store fetch sends at most 101 requests, for the offsets 0, 100, 200, ... in
  turn. Every page before the last one succeeded and announced a next page. The last
  page either failed (one alert), or succeeded and announced no next page, or is the
  page at offset 10000; in the two latter cases the fetch completes without alert and
  returns the postings of all pages, tagged with the store.
\<close>

theorem pagination_terminates_within_cap:
  "length (requested (fetchOrdersForStore e c days)) \<le> 101 \<and>
   (\<exists>n\<le>100.
      map snd (requested (fetchOrdersForStore e c days)) =
        map (\<lambda>i. requestBody (window_of e days) (100 * i)) [0..<Suc n] \<and>
      (\<forall>i<n. \<exists>data. page_at e c days i = Inr data \<and> has_next data) \<and>
      (case page_at e c days n of
         Inl t \<Rightarrow> alerted (fetchOrdersForStore e c days) = [alert_text c (errorMessage t)]
       | Inr data \<Rightarrow> (\<not> has_next data \<or> n = 100) \<and>
           alerted (fetchOrdersForStore e c days) = [] \<and>
           returned (fetchOrdersForStore e c days) =
             map (\<lambda>p. p\<lparr>posting_clientId := Some (clientId c)\<rparr>)
               (concat (map (\<lambda>i. postings_of (page_at e c days i)) [0..<Suc n]))))"
proof -
  let ?out = "fetchOrdersForStore e c days"
  from fetchOrdersForStore_char[of e c days]
  obtain n where n: "n \<le> 100"
    and req: "map snd (requested ?out) = map (\<lambda>i. requestBody (window_of e days) (100 * i)) [0..<Suc n]"
    and pre: "\<forall>i<n. \<exists>data. page_at e c days i = Inr data \<and> has_next data"
    and fin: "(case page_at e c days n of
        Inl t \<Rightarrow> store_failure e c days = Some t \<and> returned ?out = [] \<and>
                 alerted ?out = [alert_text c (errorMessage t)]
      | Inr data \<Rightarrow> (\<not> has_next data \<or> n = 100) \<and> store_failure e c days = None \<and>
          alerted ?out = [] \<and>
          returned ?out = map (\<lambda>p. p\<lparr>posting_clientId := Some (clientId c)\<rparr>)
              (concat (map (\<lambda>i. postings_of (page_at e c days i)) [0..<Suc n])))"
    by blast
  have "length (map snd (requested ?out)) = Suc n"
    unfolding req by simp
  then have len: "length (requested ?out) \<le> 101"
    using n by simp
  have fin': "(case page_at e c days n of
         Inl t \<Rightarrow> alerted ?out = [alert_text c (errorMessage t)]
       | Inr data \<Rightarrow> (\<not> has_next data \<or> n = 100) \<and> alerted ?out = [] \<and>
           returned ?out = map (\<lambda>p. p\<lparr>posting_clientId := Some (clientId c)\<rparr>)
               (concat (map (\<lambda>i. postings_of (page_at e c days i)) [0..<Suc n])))"
    using fin by (simp split: sum.splits)
  show ?thesis
    using len n req pre fin' by blast
qed

text \<open>A store that always announces a next page is asked for 101 pages, without alert.\<close>

theorem pagination_terminates_within_cap_witness:
  "length (requested (fetchOrdersForStore env_endless store_A 15)) = 101 \<and>
   alerted (fetchOrdersForStore env_endless store_A 15) = [] \<and>
   returned (fetchOrdersForStore env_endless store_A 15) = []"
proof -
  let ?out = "fetchOrdersForStore env_endless store_A 15"
  have pg: "\<And>i. page_at env_endless store_A 15 i = Inr \<lparr>postings = None, has_next = True\<rparr>"
    by (simp add: page_at_def env_endless_def page_outcome_def)
  from pagination_terminates_within_cap[of env_endless store_A 15]
  obtain n where req: "map snd (requested ?out) =
        map (\<lambda>i. requestBody (window_of env_endless 15) (100 * i)) [0..<Suc n]"
    and fin: "(case page_at env_endless store_A 15 n of
         Inl t \<Rightarrow> alerted ?out = [alert_text store_A (errorMessage t)]
       | Inr data \<Rightarrow> (\<not> has_next data \<or> n = 100) \<and> alerted ?out = [] \<and>
           returned ?out = map (\<lambda>p. p\<lparr>posting_clientId := Some (clientId store_A)\<rparr>)
               (concat (map (\<lambda>i. postings_of (page_at env_endless store_A 15 i)) [0..<Suc n])))"
    by blast
  from fin have n: "n = 100" and a: "alerted ?out = []"
    and r: "returned ?out = map (\<lambda>p. p\<lparr>posting_clientId := Some (clientId store_A)\<rparr>)
               (concat (map (\<lambda>i. postings_of (page_at env_endless store_A 15 i)) [0..<Suc n]))"
    by (simp_all add: pg del: upt_Suc)
  have "length (map snd (requested ?out)) = Suc n"
    unfolding req by simp
  then have l: "length (requested ?out) = 101" using n by simp
  have "returned ?out = []"
    unfolding r by (simp add: pg postings_of_def pagePostings_def del: upt_Suc)
  with l a show ?thesis by simp
qed

section \<open>Failure of a store\<close>

text \<open>
  C5. If a page requested for a store fails, the fetch of that store returns no order,
  whatever the earlier pages carried, and the aggregated fetch returns the sorted
  orders of the other stores, so the orders of every store are included.
\<close>

theorem failed_store_contributes_nothing:
  assumes "c \<in> set creds"
    and "i < length (requested (fetchOrdersForStore e c (default_days days)))"
    and "page_at e c (default_days days) i = Inl t"
  shows "returned (fetchOrdersForStore e c (default_days days)) = [] \<and>
         returned (fetchAggregatedOrders e creds days) =
           js_sort (date_cmp (getTime e))
             (concat (map (\<lambda>c'. returned (fetchOrdersForStore e c' (default_days days)))
                        (filter (\<lambda>c'. c' \<noteq> c) creds))) \<and>
         (\<forall>c'\<in>set creds. set (returned (fetchOrdersForStore e c' (default_days days)))
              \<subseteq> set (returned (fetchAggregatedOrders e creds days)))"
proof -
  let ?d = "default_days days"
  let ?out = "fetchOrdersForStore e c ?d"
  from fetchOrdersForStore_char[of e c ?d]
  obtain n where req: "map snd (requested ?out) = map (\<lambda>i. requestBody (window_of e ?d) (100 * i)) [0..<Suc n]"
    and pre: "\<forall>i<n. \<exists>data. page_at e c ?d i = Inr data \<and> has_next data"
    and fin: "(case page_at e c ?d n of
        Inl t \<Rightarrow> store_failure e c ?d = Some t \<and> returned ?out = [] \<and>
                 alerted ?out = [alert_text c (errorMessage t)]
      | Inr data \<Rightarrow> (\<not> has_next data \<or> n = 100) \<and> store_failure e c ?d = None \<and>
          alerted ?out = [] \<and>
          returned ?out = map (\<lambda>p. p\<lparr>posting_clientId := Some (clientId c)\<rparr>)
              (concat (map (\<lambda>i. postings_of (page_at e c ?d i)) [0..<Suc n])))"
    by blast
  have "length (map snd (requested ?out)) = Suc n"
    unfolding req by simp
  with assms(2) have "i \<le> n" by simp
  moreover have "\<not> i < n"
    using pre assms(3) by auto
  ultimately have "i = n" by simp
  with fin assms(3) have empty: "returned ?out = []" by simp
  have agg: "returned (fetchAggregatedOrders e creds days) =
           js_sort (date_cmp (getTime e))
             (concat (map (\<lambda>c'. returned (fetchOrdersForStore e c' ?d)) (filter (\<lambda>c'. c' \<noteq> c) creds)))"
    unfolding aggregate_returned
    by (subst concat_map_filter_nonempty) (simp_all add: empty)
  have incl: "\<forall>c'\<in>set creds. set (returned (fetchOrdersForStore e c' ?d))
              \<subseteq> set (returned (fetchAggregatedOrders e creds days))"
    unfolding aggregate_returned set_js_sort by auto
  show ?thesis using empty agg incl by blast
qed

text \<open>
  Store A fails on its second page after a first page with one order; the result is
  the two orders of store B.
\<close>

theorem failed_store_contributes_nothing_witness:
  "store_A \<in> set [store_A, store_B] \<and>
   1 < length (requested (fetchOrdersForStore env_A_fails store_A (default_days None))) \<and>
   page_at env_A_fails store_A (default_days None) 1 = Inl (JsError (auth_head @ ''bad key)'')) \<and>
   postings_of (page_at env_A_fails store_A (default_days None) 0) \<noteq> [] \<and>
   returned (fetchOrdersForStore env_A_fails store_A (default_days None)) = [] \<and>
   map posting_number (returned (fetchAggregatedOrders env_A_fails [store_A, store_B] None)) =
     [''B-2'', ''B-1'']"
proof -
  have h1: "store_A \<in> set [store_A, store_B]" by simp
  have h2: "1 < length (requested (fetchOrdersForStore env_A_fails store_A (default_days None)))"
    by (simp add: retrieval_defs sample_defs)
  have h3: "page_at env_A_fails store_A (default_days None) 1 = Inl (JsError (auth_head @ ''bad key)''))"
    by (simp add: page_at_def retrieval_defs sample_defs)
  have h4: "postings_of (page_at env_A_fails store_A (default_days None) 0) \<noteq> []"
    by (simp add: page_at_def postings_of_def retrieval_defs sample_defs)
  have ne: "store_B \<noteq> store_A" by (simp add: store_A_def store_B_def)
  have b: "returned (fetchOrdersForStore env_A_fails store_B (default_days None)) =
      map (\<lambda>p. p\<lparr>posting_clientId := Some ''B''\<rparr>) (the (postings store_B_page))"
    by (simp add: retrieval_defs sample_defs)
  from failed_store_contributes_nothing[OF h1 h2 h3]
  have "returned (fetchOrdersForStore env_A_fails store_A (default_days None)) = []"
    and "returned (fetchAggregatedOrders env_A_fails [store_A, store_B] None) =
           js_sort (date_cmp (getTime env_A_fails))
             (concat (map (\<lambda>c'. returned (fetchOrdersForStore env_A_fails c' (default_days None)))
                        (filter (\<lambda>c'. c' \<noteq> store_A) [store_A, store_B])))"
    by blast+
  then show ?thesis
    using h1 h2 h3 h4 ne
    by (simp add: b) (simp add: store_B_page_def env_A_fails_def posting_def js_sort_def
          date_cmp_def sample_getTime_def)
qed

text \<open>
  C2, amended. The aggregated fetch returns the merged orders only. A failure is
  reported by an alert: the alerts shown are, in some order, one per failed store, each
  made of the store's client id and the message of the failure, and the returned
  orders are the sorted orders of the stores that did not fail.
\<close>

theorem failures_alerted_not_returned:
  "alerted (fetchAggregatedOrders e creds days) =
     mset (map (\<lambda>c. alert_head @ clientId c @ alert_mid @
                     errorMessage (the (store_failure e c (default_days days))) @ alert_tail)
             (filter (\<lambda>c. store_failure e c (default_days days) \<noteq> None) creds)) \<and>
   returned (fetchAggregatedOrders e creds days) =
     js_sort (date_cmp (getTime e))
       (concat (map (\<lambda>c. returned (fetchOrdersForStore e c (default_days days)))
                  (filter (\<lambda>c. store_failure e c (default_days days) = None) creds)))"
proof -
  let ?d = "default_days days"
  have a: "concat (map (\<lambda>c. alerted (fetchOrdersForStore e c ?d)) creds) =
     map (\<lambda>c. alert_head @ clientId c @ alert_mid @
               errorMessage (the (store_failure e c ?d)) @ alert_tail)
       (filter (\<lambda>c. store_failure e c ?d \<noteq> None) creds)"
    by (induction creds) (auto simp: store_outcome_by_failure(1) alert_text_def)
  have r: "concat (map (\<lambda>c. returned (fetchOrdersForStore e c ?d))
                  (filter (\<lambda>c. store_failure e c ?d = None) creds)) =
           concat (map (\<lambda>c. returned (fetchOrdersForStore e c ?d)) creds)"
    by (rule concat_map_filter_nonempty) (simp add: store_outcome_by_failure(2))
  show ?thesis
    unfolding aggregate_alerted aggregate_returned a r by simp
qed

text \<open>Store A fails and store B succeeds: one alert naming A, and the orders of B.\<close>

theorem failures_alerted_not_returned_witness:
  "alerted (fetchAggregatedOrders env_A_fails [store_A, store_B] None) =
     {#alert_head @ ''A'' @ alert_mid @ auth_head @ ''bad key)'' @ alert_tail#} \<and>
   map posting_number (returned (fetchAggregatedOrders env_A_fails [store_A, store_B] None)) =
     [''B-2'', ''B-1'']"
proof -
  have b: "returned (fetchOrdersForStore env_A_fails store_B 15) =
      map (\<lambda>p. p\<lparr>posting_clientId := Some ''B''\<rparr>) (the (postings store_B_page))"
    by (simp add: retrieval_defs sample_defs)
  show ?thesis
    using failures_alerted_not_returned[of env_A_fails "[store_A, store_B]" None]
    by (simp add: default_days_def store_failure_A store_failure_B b errorMessage_def)
       (simp add: store_A_def store_B_page_def env_A_fails_def posting_def js_sort_def date_cmp_def
          sample_getTime_def)
qed

text \<open>
  C2 as stated fails: the value returned when store A fails is the value returned when
  store A has no orders, so it carries no warning; the two runs differ in the alerts.
\<close>

theorem warnings_counterexample:
  "returned (fetchAggregatedOrders env_A_fails [store_A, store_B] None) =
     returned (fetchAggregatedOrders env_A_empty [store_A, store_B] None) \<and>
   alerted (fetchAggregatedOrders env_A_fails [store_A, store_B] None) =
     {#alert_head @ ''A'' @ alert_mid @ auth_head @ ''bad key)'' @ alert_tail#} \<and>
   alerted (fetchAggregatedOrders env_A_empty [store_A, store_B] None) = {#}"
  by (simp add: retrieval_defs sample_defs)

section \<open>Order and origin of the aggregated orders\<close>

text \<open>
  C4, amended. The aggregated fetch returns exactly the orders returned by the
  per-store fetches, and every order returned by the fetch of a store carries the
  client id of that store. When the dates of all returned orders are valid, the
  returned orders are sorted by \<open>in_process_at\<close>, latest first.
\<close>

theorem aggregate_sorted_and_stamped:
  "((\<forall>p\<in>set (returned (fetchAggregatedOrders e creds days)).
       getTime e (in_process_at p) \<noteq> None) \<longrightarrow>
    sorted_wrt (created_ge (getTime e)) (returned (fetchAggregatedOrders e creds days))) \<and>
   mset (returned (fetchAggregatedOrders e creds days)) =
     (\<Sum>c\<leftarrow>creds. mset (returned (fetchOrdersForStore e c (default_days days)))) \<and>
   (\<forall>c\<in>set creds. \<forall>p\<in>set (returned (fetchOrdersForStore e c (default_days days))).
      posting_clientId p = Some (clientId c))"
proof -
  let ?d = "default_days days"
  let ?xs = "concat (map (\<lambda>c. returned (fetchOrdersForStore e c ?d)) creds)"
  let ?f = "\<lambda>p. - the (getTime e (in_process_at p))"
  have s: "sorted_wrt (created_ge (getTime e)) (returned (fetchAggregatedOrders e creds days))"
    if dates: "\<forall>p\<in>set (returned (fetchAggregatedOrders e creds days)).
                getTime e (in_process_at p) \<noteq> None"
  proof -
    have valid: "\<And>p. p \<in> set ?xs \<Longrightarrow> \<exists>t. getTime e (in_process_at p) = Some t"
      using dates unfolding aggregate_returned set_js_sort by auto
    have "js_sort (date_cmp (getTime e)) ?xs = sort_key ?f ?xs"
    proof (rule js_sort_sort_key)
      fix x y assume "x \<in> set ?xs" "y \<in> set ?xs"
      then obtain tx ty where "getTime e (in_process_at x) = Some tx" "getTime e (in_process_at y) = Some ty"
        using valid by blast
      then show "(date_cmp (getTime e) x y \<le> 0) = (?f x \<le> ?f y)"
        by (simp add: date_cmp_def)
    qed
    then have eq: "returned (fetchAggregatedOrders e creds days) = sort_key ?f ?xs"
      unfolding aggregate_returned .
    have "sorted (map ?f (sort_key ?f ?xs))"
      by (rule sorted_sort_key)
    then have "sorted_wrt (\<lambda>a b. ?f a \<le> ?f b) (sort_key ?f ?xs)"
      by (simp add: sorted_map)
    then have "sorted_wrt (created_ge (getTime e)) (sort_key ?f ?xs)"
    proof (rule sorted_wrt_mono_rel[rotated])
      fix a b assume "a \<in> set (sort_key ?f ?xs)" "b \<in> set (sort_key ?f ?xs)" "?f a \<le> ?f b"
      moreover then obtain ta tb where "getTime e (in_process_at a) = Some ta" "getTime e (in_process_at b) = Some tb"
        using valid by force
      ultimately show "created_ge (getTime e) a b"
        by (simp add: created_ge_def)
    qed
    then show ?thesis
      unfolding eq .
  qed
  have m: "mset (returned (fetchAggregatedOrders e creds days)) =
           (\<Sum>c\<leftarrow>creds. mset (returned (fetchOrdersForStore e c ?d)))"
    unfolding aggregate_returned mset_js_sort mset_concat_map ..
  show ?thesis using s m stamped by blast
qed

theorem aggregate_sorted_and_stamped_witness:
  "map (\<lambda>p. getTime env_both_ok (in_process_at p))
     (returned (fetchAggregatedOrders env_both_ok [store_A, store_B] None)) =
     [Some 1704362400000, Some 1704276000000, Some 1704189600000] \<and>
   sorted_wrt (created_ge (getTime env_both_ok))
     (returned (fetchAggregatedOrders env_both_ok [store_A, store_B] None)) \<and>
   map posting_number (returned (fetchAggregatedOrders env_both_ok [store_A, store_B] None)) =
     [''B-2'', ''A-1'', ''B-1''] \<and>
   map posting_clientId (returned (fetchAggregatedOrders env_both_ok [store_A, store_B] None)) =
     [Some ''B'', Some ''A'', Some ''B'']"
proof -
  have r: "map (\<lambda>p. (posting_number p, in_process_at p, posting_clientId p))
             (returned (fetchAggregatedOrders env_both_ok [store_A, store_B] None)) =
           [(''B-2'', ''2024-01-04T10:00:00Z'', Some ''B''),
            (''A-1'', ''2024-01-03T10:00:00Z'', Some ''A''),
            (''B-1'', ''2024-01-02T10:00:00Z'', Some ''B'')]"
    by (simp add: retrieval_defs sample_defs)
  have g: "getTime env_both_ok = sample_getTime"
    by (simp add: env_both_ok_def)
  have v: "\<forall>p\<in>set (returned (fetchAggregatedOrders env_both_ok [store_A, store_B] None)).
      getTime env_both_ok (in_process_at p) \<noteq> None"
  proof
    fix p assume "p \<in> set (returned (fetchAggregatedOrders env_both_ok [store_A, store_B] None))"
    then have "(posting_number p, in_process_at p, posting_clientId p) \<in>
        set (map (\<lambda>p. (posting_number p, in_process_at p, posting_clientId p))
             (returned (fetchAggregatedOrders env_both_ok [store_A, store_B] None)))"
      by auto
    then show "getTime env_both_ok (in_process_at p) \<noteq> None"
      unfolding r g by (auto simp: sample_getTime_def)
  qed
  have m1: "map posting_number (returned (fetchAggregatedOrders env_both_ok [store_A, store_B] None)) =
     [''B-2'', ''A-1'', ''B-1'']"
    using arg_cong[OF r, of "map fst"] by (simp add: comp_def)
  have m2: "map posting_clientId (returned (fetchAggregatedOrders env_both_ok [store_A, store_B] None)) =
     [Some ''B'', Some ''A'', Some ''B'']"
    using arg_cong[OF r, of "map (snd \<circ> snd)"] by (simp add: comp_def)
  have m3: "map (\<lambda>p. getTime env_both_ok (in_process_at p))
     (returned (fetchAggregatedOrders env_both_ok [store_A, store_B] None)) =
     [Some 1704362400000, Some 1704276000000, Some 1704189600000]"
  proof -
    have "map in_process_at (returned (fetchAggregatedOrders env_both_ok [store_A, store_B] None)) =
        [''2024-01-04T10:00:00Z'', ''2024-01-03T10:00:00Z'', ''2024-01-02T10:00:00Z'']"
      using arg_cong[OF r, of "map (fst \<circ> snd)"] by (simp add: comp_def)
    from arg_cong[OF this, of "map sample_getTime"] show ?thesis
      by (simp add: comp_def g sample_getTime_def)
  qed
  show ?thesis
    using aggregate_sorted_and_stamped[of env_both_ok "[store_A, store_B]" None] v m1 m2 m3
    by blast
qed

text \<open>
  C4 as stated fails: a store returns an order with a valid date and an order whose
  date does not parse. The result consists of these two orders, and in neither
  arrangement of them is the date of the first at least the date of the second.
\<close>

theorem unparsable_date_counterexample:
  "mset (returned (fetchAggregatedOrders env_bad_date [store_B] None)) =
     {#dated_order\<lparr>posting_clientId := Some ''B''\<rparr>,
       undated_order\<lparr>posting_clientId := Some ''B''\<rparr>#} \<and>
   \<not> sorted_wrt (created_ge (getTime env_bad_date))
       [dated_order\<lparr>posting_clientId := Some ''B''\<rparr>,
        undated_order\<lparr>posting_clientId := Some ''B''\<rparr>] \<and>
   \<not> sorted_wrt (created_ge (getTime env_bad_date))
       [undated_order\<lparr>posting_clientId := Some ''B''\<rparr>,
        dated_order\<lparr>posting_clientId := Some ''B''\<rparr>]"
proof -
  have "returned (fetchOrdersForStore env_bad_date store_B 15) =
      [dated_order\<lparr>posting_clientId := Some ''B''\<rparr>,
       undated_order\<lparr>posting_clientId := Some ''B''\<rparr>]"
    by (simp add: fetchOrdersForStore_def fetch_loop.simps page_outcome_def requestBody_def
          pagePostings_def env_bad_date_def store_B_def)
  then have m: "mset (returned (fetchAggregatedOrders env_bad_date [store_B] None)) =
     {#dated_order\<lparr>posting_clientId := Some ''B''\<rparr>,
       undated_order\<lparr>posting_clientId := Some ''B''\<rparr>#}"
    unfolding aggregate_returned mset_js_sort by (simp add: default_days_def)
  have n: "getTime env_bad_date (in_process_at undated_order) = None"
    by (simp add: env_bad_date_def undated_order_def posting_def sample_getTime_def)
  show ?thesis
    using m n by (simp add: created_ge_def split: option.splits)
qed

section \<open>The single-store entry point\<close>

text \<open>
  C10. \<open>fetchOrders\<close> on a credential gives what \<open>fetchAggregatedOrders\<close> gives on the
  list of that credential alone, for every window length, the default included.
\<close>

theorem fetchOrders_is_singleton_aggregate:
  "fetchOrders e c days = fetchAggregatedOrders e [c] days"
  by (simp add: fetchOrders_def fetchAggregatedOrders_def default_days_idem)

section \<open>Auxiliary facts on grouping and export\<close>

lemmas grouping_defs = smartGroups_def group_step_def obj_get_def obj_values_def own_entries_def
  is_array_index_def is_digit_def decimal_val_def digit_val_def inherited_key_def
  js_sort_def size_cmp_def product_key_def Let_def

lemmas export_defs = handleExportSmartGroups_def csv_row_def quantity_or_1_def escape_quotes_def
  show_int_def show_nat.simps Let_def

subsection \<open>The grouping loop computes the specified groups\<close>

lemma group_loop_snoc:
  "group_loop groups (xs @ [x]) =
     (case group_loop groups xs of Inl err \<Rightarrow> Inl err | Inr groups' \<Rightarrow> group_step groups' x)"
  by (induction xs arbitrary: groups) (auto split: sum.splits)

lemma first_seen_snoc:
  "first_seen (xs @ [x]) = (if x \<in> set xs then first_seen xs else first_seen xs @ [x])"
  by (simp add: first_seen_def)

lemma set_first_seen: "set (first_seen xs) = set xs"
  by (simp add: first_seen_def)

lemma distinct_first_seen: "distinct (first_seen xs)"
  by (simp add: first_seen_def)

lemma obj_get_tabulate:
  "obj_get (map (\<lambda>k. (k, f k)) ks) k = (if k \<in> set ks then Some (f k) else None)"
  by (induction ks) (auto simp: obj_get_def)

lemma obj_set_tabulate_new:
  "k \<notin> set ks \<Longrightarrow> obj_set (map (\<lambda>k. (k, f k)) ks) k v = map (\<lambda>k. (k, f k)) ks @ [(k, v)]"
  by (induction ks) auto

lemma obj_set_tabulate_old:
  "distinct ks \<Longrightarrow> k \<in> set ks \<Longrightarrow>
   obj_set (map (\<lambda>k. (k, f k)) ks) k v = map (\<lambda>k'. (k', if k' = k then v else f k')) ks"
  by (induction ks) auto

lemma single_item_snoc:
  "single_item_orders (xs @ [x]) =
     (if length (products x) = 1 then single_item_orders xs @ [x] else single_item_orders xs)"
  by (simp add: single_item_orders_def)

lemma group_step_spec:
  assumes "length (products x) = 1 \<longrightarrow> \<not> inherited_key (product_key x)"
  shows "group_step (spec_groups xs) x = Inr (spec_groups (xs @ [x]))"
proof (cases "length (products x) = 1")
  case False
  then have "group_step (spec_groups xs) x = Inr (spec_groups xs)"
    by (auto simp: group_step_def split: list.splits)
  moreover have "spec_groups (xs @ [x]) = spec_groups xs"
    using False by (simp add: spec_groups_def spec_group_def single_item_snoc)
  ultimately show ?thesis by simp
next
  case True
  then obtain p where p: "products x = [p]"
    by (cases "products x") auto
  let ?k = "offer_id p"
  let ?ks = "map product_key (single_item_orders xs)"
  have key: "product_key x = ?k" using p by (simp add: product_key_def)
  have ninh: "\<not> inherited_key ?k" using assms True key by simp
  have singles: "single_item_orders (xs @ [x]) = single_item_orders xs @ [x]"
    using True by (simp add: single_item_snoc)
  have other: "\<And>k'. k' \<noteq> ?k \<Longrightarrow> spec_group (xs @ [x]) k' = spec_group xs k'"
    using key by (simp add: spec_group_def singles)
  show ?thesis
  proof (cases "?k \<in> set ?ks")
    case False
    then have nomem: "filter (\<lambda>order. product_key order = ?k) (single_item_orders xs) = []"
      by (force simp: filter_empty_conv)
    have new: "spec_group (xs @ [x]) ?k =
        \<lparr>product = p, orders = [x],
         currency = (if currency_code p \<noteq> [] then currency_code p else ''RUB'')\<rparr>"
      using key p by (simp add: spec_group_def singles nomem)
    have lhs: "group_step (spec_groups xs) x = Inr (spec_groups xs @ [(?k, spec_group (xs @ [x]) ?k)])"
      using False ninh p
      by (simp add: group_step_def spec_groups_def obj_get_tabulate set_first_seen
            obj_set_tabulate_new new)
    have "map (\<lambda>k'. (k', spec_group (xs @ [x]) k')) (first_seen ?ks) =
          map (\<lambda>k'. (k', spec_group xs k')) (first_seen ?ks)"
    proof (rule map_cong[OF refl])
      fix k' assume "k' \<in> set (first_seen ?ks)"
      with False have "k' \<noteq> ?k" unfolding set_first_seen by blast
      then show "(k', spec_group (xs @ [x]) k') = (k', spec_group xs k')"
        by (simp add: other)
    qed
    then have "spec_groups (xs @ [x]) = spec_groups xs @ [(?k, spec_group (xs @ [x]) ?k)]"
      using False by (simp add: spec_groups_def singles key first_seen_snoc)
    with lhs show ?thesis by simp
  next
    case True
    then have mem: "filter (\<lambda>order. product_key order = ?k) (single_item_orders xs) \<noteq> []"
      by (force simp: filter_empty_conv)
    have upd: "spec_group (xs @ [x]) ?k =
        (spec_group xs ?k)\<lparr>orders := orders (spec_group xs ?k) @ [x]\<rparr>"
      using key mem by (simp add: spec_group_def singles Let_def)
    have lhs: "group_step (spec_groups xs) x =
        Inr (map (\<lambda>k'. (k', if k' = ?k then spec_group (xs @ [x]) ?k else spec_group xs k'))
               (first_seen ?ks))"
      using True ninh p
      by (simp add: group_step_def spec_groups_def obj_get_tabulate set_first_seen
            obj_set_tabulate_old distinct_first_seen upd Let_def)
    have "map (\<lambda>k'. (k', spec_group (xs @ [x]) k')) (first_seen ?ks) =
        map (\<lambda>k'. (k', if k' = ?k then spec_group (xs @ [x]) ?k else spec_group xs k'))
               (first_seen ?ks)"
      by (rule map_cong[OF refl]) (simp add: other)
    then have "spec_groups (xs @ [x]) =
        map (\<lambda>k'. (k', if k' = ?k then spec_group (xs @ [x]) ?k else spec_group xs k'))
               (first_seen ?ks)"
      using True by (simp add: spec_groups_def singles key first_seen_snoc)
    with lhs show ?thesis by simp
  qed
qed

lemma group_loop_spec:
  assumes "\<forall>x\<in>set xs. length (products x) = 1 \<longrightarrow> \<not> inherited_key (product_key x)"
  shows "group_loop [] xs = Inr (spec_groups xs)"
  using assms
proof (induction xs rule: rev_induct)
  case Nil
  show ?case by (simp add: spec_groups_def single_item_orders_def first_seen_def)
next
  case (snoc x xs)
  then have "group_loop [] xs = Inr (spec_groups xs)" by simp
  moreover have "group_step (spec_groups xs) x = Inr (spec_groups (xs @ [x]))"
    by (rule group_step_spec) (use snoc.prems in simp)
  ultimately show ?case by (simp add: group_loop_snoc)
qed

lemma js_sort_size_cmp: "js_sort size_cmp gs = by_size_desc gs"
  unfolding by_size_desc_def
  by (rule js_sort_sort_key) (simp add: size_cmp_def)

lemma own_entries_no_index:
  assumes "\<forall>e\<in>set obj. \<not> is_array_index (fst e)"
  shows "own_entries obj = obj"
proof -
  have "filter (\<lambda>(k, v). is_array_index k) obj = []"
    using assms by (auto simp: filter_empty_conv)
  moreover have "filter (\<lambda>(k, v). \<not> is_array_index k) obj = obj"
    using assms by (auto simp: filter_id_conv)
  ultimately show ?thesis by (simp add: own_entries_def)
qed

lemma smartGroups_mixed: "smartGroups mixed_orders = Inr mixed_groups"
  by (simp add: grouping_defs mixed_orders_def mixed_groups_def posting_def line_item_def plate_def)

subsection \<open>The rows of the export\<close>

lemma total_qty_sum:
  assumes "\<forall>x\<in>set xs. products x \<noteq> []"
  shows "total_qty a xs = Inr (a + (\<Sum>x\<leftarrow>xs. quantity_or_1 (hd (products x))))"
  using assms by (induction xs arbitrary: a) (auto split: list.splits)

lemma unpacked_count:
  "length xs - length (filter P xs) = length (filter (\<lambda>x. \<not> P x) xs)"
  using sum_length_filter_compl[of P xs] by simp

lemma csv_row_spec:
  assumes "\<forall>x\<in>set (orders g). products x \<noteq> []"
  shows "csv_row packed g = Inr (spec_row packed g)"
  using total_qty_sum[OF assms, of 0]
  by (simp add: csv_row_def spec_row_def Let_def unpacked_count quantity_or_1_def[abs_def])

lemma export_loop_spec:
  assumes "\<forall>g\<in>set gs. \<forall>x\<in>set (orders g). products x \<noteq> []"
  shows "export_loop packed csv gs = Inr (csv @ concat (map (spec_row packed) gs))"
  using assms by (induction gs arbitrary: csv) (simp_all add: csv_row_spec)

section \<open>Smart groups\<close>

text \<open>
  C7, amended. When no single-item order has an offer id that names an inherited
  property of objects, \<open>smartGroups\<close> considers exactly the orders with one line item,
  groups them by the offer id of that line item, across stores, takes the line item of
  a group from the first order met for its key, and returns the groups largest first,
  groups of equal size staying in the enumeration order of the keys: the keys that are
  array indices first, in ascending numeric order, then the other keys in the order in
  which they are first met. When no key is an array index, groups of equal size stay
  in the order in which they are first met.
\<close>

theorem smartGroups_grouping:
  assumes "\<forall>x\<in>set all_orders. length (products x) = 1 \<longrightarrow> \<not> inherited_key (product_key x)"
  shows "smartGroups all_orders = Inr (by_size_desc (obj_values (spec_groups all_orders))) \<and>
         ((\<forall>x\<in>set all_orders. length (products x) = 1 \<longrightarrow> \<not> is_array_index (product_key x)) \<longrightarrow>
          smartGroups all_orders = Inr (by_size_desc (map snd (spec_groups all_orders))))"
proof -
  have a: "smartGroups all_orders = Inr (by_size_desc (obj_values (spec_groups all_orders)))"
    using group_loop_spec[OF assms] by (simp add: smartGroups_def js_sort_size_cmp)
  have b: "obj_values (spec_groups all_orders) = map snd (spec_groups all_orders)"
    if "\<forall>x\<in>set all_orders. length (products x) = 1 \<longrightarrow> \<not> is_array_index (product_key x)"
  proof -
    have "\<forall>e\<in>set (spec_groups all_orders). \<not> is_array_index (fst e)"
      using that by (auto simp: spec_groups_def set_first_seen single_item_orders_def)
    then show ?thesis by (simp add: obj_values_def own_entries_no_index)
  qed
  show ?thesis using a b by simp
qed

text \<open>
  Of four orders, the two-item order is left out; the two plate orders form the first
  group, with the line item of the earlier one, and the pen order, met first, the second.
\<close>

theorem smartGroups_grouping_witness:
  "smartGroups mixed_orders = Inr mixed_groups \<and>
   by_size_desc (map snd (spec_groups mixed_orders)) = mixed_groups \<and>
   map product_key (single_item_orders mixed_orders) = [''pen'', ''plate-6'', ''plate-6'']"
proof -
  have h1: "\<forall>x\<in>set mixed_orders. length (products x) = 1 \<longrightarrow> \<not> inherited_key (product_key x)"
    by (simp add: mixed_orders_def posting_def line_item_def plate_def product_key_def inherited_key_def)
  have h2: "\<forall>x\<in>set mixed_orders. length (products x) = 1 \<longrightarrow> \<not> is_array_index (product_key x)"
    by (simp add: mixed_orders_def posting_def line_item_def plate_def product_key_def
          is_array_index_def is_digit_def)
  have k: "map product_key (single_item_orders mixed_orders) = [''pen'', ''plate-6'', ''plate-6'']"
    by (simp add: single_item_orders_def mixed_orders_def posting_def line_item_def plate_def product_key_def)
  from smartGroups_grouping[OF h1] h2
  have "smartGroups mixed_orders = Inr (by_size_desc (map snd (spec_groups mixed_orders)))"
    by blast
  with smartGroups_mixed k show ?thesis by simp
qed

text \<open>
  C7 as stated fails: of two groups of size 1 with the keys 2 and 1, met in this order,
  the group of key 1 comes first.
\<close>

theorem tie_order_counterexample:
  "map_sum id (map (\<lambda>g. (offer_id (product g), length (orders g)))) (smartGroups numeric_orders) =
     Inr [(''1'', 1), (''2'', 1)] \<and>
   map (\<lambda>g. (offer_id (product g), length (orders g)))
     (by_size_desc (map snd (spec_groups numeric_orders))) = [(''2'', 1), (''1'', 1)]"
  by (simp add: grouping_defs numeric_orders_def posting_def line_item_def
        by_size_desc_def spec_groups_def spec_group_def single_item_orders_def first_seen_def)

section \<open>Export\<close>

text \<open>
  C8, amended. For a group list whose member orders all have a line item: nothing is
  exported when the list is empty; otherwise the exported text is the byte-order mark,
  the header line and one row per group, in which the name is quoted with its quote
  characters doubled and the total quantity is the sum over the member orders of the
  quantity of the line item, a missing quantity and a quantity 0 counting as 1.
\<close>

theorem export_text:
  assumes "\<forall>g\<in>set groups. \<forall>x\<in>set (orders g). products x \<noteq> []"
  shows "handleExportSmartGroups groups packed =
           (if groups = [] then Inr None
            else Inr (Some (bom @ csv_header @ concat (map (spec_row packed) groups)))) \<and>
         length (map (spec_row packed) groups) = length groups"
  using assms by (simp add: handleExportSmartGroups_def export_loop_spec)

text \<open>
  The two groups above, with the first plate order packed: the plate row has the
  doubled quote and the total 3 + 1, the pen row the total 1.
\<close>

theorem export_text_witness:
  "handleExportSmartGroups mixed_groups {''P-8''} =
     Inr (Some (bom @ csv_header @
       ''plate-6,7,'' @ [CHR 0x22] @ ''6'' @ [CHR 0x22, CHR 0x22] @ '' plate'' @ [CHR 0x22] @
       '',5,CNY,4,1,1'' @ [CHR 0x0A] @
       ''pen,7,'' @ [CHR 0x22] @ ''Pen'' @ [CHR 0x22] @ '',5,CNY,1,1,0'' @ [CHR 0x0A]))"
proof -
  have h1: "mixed_groups \<noteq> []" by (simp add: mixed_groups_def)
  have h2: "\<forall>g\<in>set mixed_groups. \<forall>x\<in>set (orders g). products x \<noteq> []"
    by (simp add: mixed_groups_def posting_def)
  have rows: "map (spec_row {''P-8''}) mixed_groups =
     [''plate-6,7,'' @ [CHR 0x22] @ ''6'' @ [CHR 0x22, CHR 0x22] @ '' plate'' @ [CHR 0x22] @
       '',5,CNY,4,1,1'' @ [CHR 0x0A],
      ''pen,7,'' @ [CHR 0x22] @ ''Pen'' @ [CHR 0x22] @ '',5,CNY,1,1,0'' @ [CHR 0x0A]]"
    by (simp add: spec_row_def mixed_groups_def posting_def line_item_def plate_def
          escape_quotes_def show_int_def show_nat.simps)
  from export_text[OF h2, of "{''P-8''}"] h1 show ?thesis
    unfolding rows by simp
qed

text \<open>
  C8 as stated fails: for a member order of quantity 0 the row shows the total 1, while
  the sum of the quantities, with 1 for a missing quantity only, is 0.
\<close>

theorem zero_quantity_counterexample:
  "handleExportSmartGroups [zero_quantity_group] {} =
     Inr (Some (bom @ csv_header @
       ''cup,7,'' @ [CHR 0x22] @ ''Cup'' @ [CHR 0x22] @ '',5,CNY,1,1,0'' @ [CHR 0x0A])) \<and>
   stated_total_quantity zero_quantity_group = 0"
  by (simp add: export_defs stated_total_quantity_def zero_quantity_group_def posting_def
        line_item_def)

end
